theory Spec2Isabelle
  imports Main
begin

section \<open>Values, errors and the world the scripts run in\<close>

text \<open>
  The repository is a seed script (\<^verbatim>\<open>prisma/seed.ts\<close>), a data factory
  (\<^verbatim>\<open>categoryFactory\<close>) and a Jest suite of CRUD tests. All three talk to one
  external data-access client. A JavaScript object literal whose properties hold strings
  is the list of its properties in the order they are written; reading a property that
  is absent gives \<open>None\<close> (JavaScript's \<^verbatim>\<open>undefined\<close>).
\<close>

type_synonym obj = "(string \<times> string) list"

definition property :: "obj \<Rightarrow> string \<Rightarrow> string option" where
  "property d k = map_of d k"

datatype kind = User | Post | Category

text \<open>A persisted record: the identifier the store assigned, and the column values.\<close>

record row =
  ident :: string
  cols :: obj

datatype error =
  ConstraintViolation
  | ConnectivityFailure
  | RecordNotFound
  | AssertionFailed

text \<open>The requests a program sends to the client, and the lines it prints.\<close>

datatype call =
  Create kind obj
  | FindUnique kind string
  | FindMany kind
  | Delete kind string
  | Disconnect

datatype line = Stdout error | Stderr error

text \<open>
  The world holds everything outside the scripts: the store (reachable or not, its rows
  per entity kind, the values its identifier generator will produce and how many it has
  produced), the random strings faker will return and how many it has returned, the
  console, whether a connection is held, and the journal of requests the client has
  received with their outcome (\<open>True\<close> for a request that succeeded).
\<close>

record world =
  reachable :: bool
  rows :: "kind \<Rightarrow> row list"
  uuids :: "nat \<Rightarrow> nat"
  issued :: nat
  fake :: "nat \<Rightarrow> string"
  drawn :: nat
  console :: "line list"
  connected :: bool
  journal :: "(call \<times> bool) list"

text \<open>
  An asynchronous computation either resolves with a value or rejects with an error, and
  changes the world in both cases. \<open>bind_io\<close> is \<^verbatim>\<open>await\<close> followed by the rest
  (and a promise's \<^verbatim>\<open>.then\<close>), \<open>catch_io\<close> is \<^verbatim>\<open>try { } catch (e) { }\<close> (and a
  promise's \<^verbatim>\<open>.catch\<close>).
\<close>

type_synonym 'a io = "world \<Rightarrow> (error + 'a) \<times> world"

definition return_io :: "'a \<Rightarrow> 'a io" where
  "return_io x w = (Inr x, w)"

definition throw_io :: "error \<Rightarrow> 'a io" where
  "throw_io e w = (Inl e, w)"

definition bind_io :: "'a io \<Rightarrow> ('a \<Rightarrow> 'b io) \<Rightarrow> 'b io" where
  "bind_io m f w = (case m w of (Inl e, w') \<Rightarrow> (Inl e, w') | (Inr x, w') \<Rightarrow> f x w')"

definition catch_io :: "'a io \<Rightarrow> (error \<Rightarrow> 'a io) \<Rightarrow> 'a io" where
  "catch_io m h w = (case m w of (Inl e, w') \<Rightarrow> h e w' | (Inr x, w') \<Rightarrow> (Inr x, w'))"

section \<open>The console and faker\<close>

definition console_log :: "error \<Rightarrow> unit io" where
  "console_log e w = (Inr (), w\<lparr>console := console w @ [Stdout e]\<rparr>)"

definition console_error :: "error \<Rightarrow> unit io" where
  "console_error e w = (Inr (), w\<lparr>console := console w @ [Stderr e]\<rparr>)"

text \<open>
  Every faker generator (\<^verbatim>\<open>person.firstName\<close>, \<^verbatim>\<open>person.fullName\<close>,
  \<^verbatim>\<open>internet.email\<close>, \<^verbatim>\<open>lorem.word\<close>) returns the next random string.
\<close>

definition faker_next :: "string io" where
  "faker_next w = (Inr (fake w (drawn w)), w\<lparr>drawn := Suc (drawn w)\<rparr>)"

definition firstName :: "string io" where
  "firstName = faker_next"

definition fullName :: "string io" where
  "fullName = faker_next"

definition email :: "string io" where
  "email = faker_next"

definition word :: "string io" where
  "word = faker_next"

section \<open>The data-access client\<close>

text \<open>
  Modelled from the spec: the data-access client (the ORM client generated from the
  schema, imported as \<^verbatim>\<open>@prisma/client\<close> and \<^verbatim>\<open>@/client\<close>) is not among the
  source files. Its four operations follow section 6 of the specification and the three
  kinds of failure section 7. The identifier of a record is system-assigned; the schema
  printed in the README declares it as \<^verbatim>\<open>id String @id @default(uuid())\<close>, so it is
  the text of a 128-bit value in the 8-4-4-4-12 hexadecimal layout.
\<close>

text \<open>Modelled from the spec: the hexadecimal digit of a value below sixteen.\<close>

definition hex_digit :: "nat \<Rightarrow> char" where
  "hex_digit n = ''0123456789abcdef'' ! (n mod 16)"

text \<open>Modelled from the spec: the \<open>k\<close> lowest hexadecimal digits of a number.\<close>

fun hex :: "nat \<Rightarrow> nat \<Rightarrow> string" where
  "hex 0 n = []"
| "hex (Suc k) n = hex k (n div 16) @ [hex_digit n]"

text \<open>
  Modelled from the spec: the system-assigned identifier as text, 32 hexadecimal digits
  in five groups.
\<close>

definition uuid_string :: "nat \<Rightarrow> string" where
  "uuid_string n =
     hex 8 (n div 16 ^ 24) @ ''-'' @ hex 4 (n div 16 ^ 20) @ ''-'' @
     hex 4 (n div 16 ^ 16) @ ''-'' @ hex 4 (n div 16 ^ 12) @ ''-'' @ hex 12 n"

text \<open>
  Modelled from the spec: the required fields of each entity kind (section 3), under
  the column names of the README's schema; a Post refers to its User and its Category by
  \<^verbatim>\<open>userId\<close> and \<^verbatim>\<open>categoryId\<close>, and both must exist.
\<close>

fun required :: "kind \<Rightarrow> string list" where
  "required User = [''email'', ''name'']"
| "required Post = [''title'', ''content'', ''userId'', ''categoryId'']"
| "required Category = [''name'']"

text \<open>Modelled from the spec: some record among \<open>rs\<close> carries the identifier.\<close>

definition has_id :: "string \<Rightarrow> row list \<Rightarrow> bool" where
  "has_id i rs = (i \<in> set (map ident rs))"

text \<open>
  Modelled from the spec: the foreign keys of a Post must reference an existing User and
  an existing Category; the other kinds have none.
\<close>

fun references_ok :: "kind \<Rightarrow> obj \<Rightarrow> world \<Rightarrow> bool" where
  "references_ok Post d w =
     (case (property d ''userId'', property d ''categoryId'') of
        (Some u, Some c) \<Rightarrow> has_id u (rows w User) \<and> has_id c (rows w Category)
      | _ \<Rightarrow> False)"
| "references_ok k d w = True"

text \<open>
  Modelled from the spec: the client is a shared singleton that holds a connection once
  a request has been answered; every request is journalled with its outcome.
\<close>

definition received :: "call \<Rightarrow> bool \<Rightarrow> world \<Rightarrow> world" where
  "received c ok w = w\<lparr>connected := (connected w \<or> ok), journal := journal w @ [(c, ok)]\<rparr>"

text \<open>
  Modelled from the spec: insert returns the persisted record (all fields plus the
  system-assigned identifier) and fails with a constraint violation if required fields
  are missing or a uniqueness or foreign-key rule is violated; an unreachable store
  fails every request with a connectivity failure. The identifier is the next value of
  the store's generator whatever the payload holds, and the uniqueness rule is the
  primary key: a generated identifier that a record of the kind already carries is
  refused.
\<close>

definition create :: "kind \<Rightarrow> obj \<Rightarrow> row io" where
  "create k d w =
     (if \<not> reachable w then (Inl ConnectivityFailure, received (Create k d) False w)
      else if \<not> list_all (\<lambda>f. property d f \<noteq> None) (required k) \<or> \<not> references_ok k d w
      then (Inl ConstraintViolation, received (Create k d) False w)
      else
        let i = uuid_string (uuids w (issued w));
            w1 = w\<lparr>issued := Suc (issued w)\<rparr>
        in if has_id i (rows w k)
           then (Inl ConstraintViolation, received (Create k d) False w1)
           else
             let r = \<lparr>ident = i, cols = d\<rparr>
             in (Inr r, received (Create k d) True (w1\<lparr>rows := (rows w)(k := rows w k @ [r])\<rparr>)))"

text \<open>
  Modelled from the spec: findOne returns the record or an explicit empty result if it
  is absent, and never fails for "not found".
\<close>

definition findUnique :: "kind \<Rightarrow> string \<Rightarrow> row option io" where
  "findUnique k i w =
     (if \<not> reachable w then (Inl ConnectivityFailure, received (FindUnique k i) False w)
      else (Inr (find (\<lambda>r. ident r = i) (rows w k)), received (FindUnique k i) True w))"

text \<open>Modelled from the spec: findAll returns the sequence of all records of the kind.\<close>

definition findMany :: "kind \<Rightarrow> row list io" where
  "findMany k w =
     (if \<not> reachable w then (Inl ConnectivityFailure, received (FindMany k) False w)
      else (Inr (rows w k), received (FindMany k) True w))"

text \<open>
  Modelled from the spec: delete removes the record and fails if the identifier does
  not exist.
\<close>

definition delete :: "kind \<Rightarrow> string \<Rightarrow> row io" where
  "delete k i w =
     (if \<not> reachable w then (Inl ConnectivityFailure, received (Delete k i) False w)
      else
        (case find (\<lambda>r. ident r = i) (rows w k) of
           None \<Rightarrow> (Inl RecordNotFound, received (Delete k i) False w)
         | Some r \<Rightarrow>
             (Inr r,
              received (Delete k i) True
                (w\<lparr>rows := (rows w)(k := filter (\<lambda>r. ident r \<noteq> i) (rows w k))\<rparr>))))"

text \<open>
  Modelled from the spec: releasing the connection is not among the operations that can
  fail; it is journalled like a request.
\<close>

definition disconnect :: "unit io" where
  "disconnect w = (Inr (), w\<lparr>connected := False, journal := journal w @ [(Disconnect, True)]\<rparr>)"

section \<open>The seed script (\<^verbatim>\<open>prisma/seed.ts\<close>)\<close>

text \<open>\<^verbatim>\<open>const fakerUser = (): any => ({ name: faker.person.firstName(), email: faker.internet.email() })\<close>\<close>

definition fakerUser :: "obj io" where
  "fakerUser = bind_io firstName (\<lambda>n. bind_io email (\<lambda>e. return_io [(''name'', n), (''email'', e)]))"

definition fakerRounds :: nat where
  "fakerRounds = 10"

text \<open>
  The body of the loop, \<^verbatim>\<open>await db.user.create({ data: fakerUser() })\<close>, and the loop
  \<^verbatim>\<open>for (let i = 0; i < fakerRounds; i++)\<close>: a rejected insertion leaves the loop.
\<close>

definition seed_round :: "row io" where
  "seed_round = bind_io fakerUser (\<lambda>d. create User d)"

function seed_loop :: "nat \<Rightarrow> unit io" where
  "seed_loop i w =
     (if i < fakerRounds
      then (case seed_round w of
              (Inl e, w') \<Rightarrow> (Inl e, w')
            | (Inr r, w') \<Rightarrow> seed_loop (Suc i) w')
      else (Inr (), w))"
  by pat_completeness auto
termination
  by (relation "measure (\<lambda>(i, w). fakerRounds - i)") auto

declare seed_loop.simps [simp del]

definition main :: "unit io" where
  "main = catch_io (seed_loop 0) (\<lambda>error. console_log error)"

text \<open>
  The chain \<^verbatim>\<open>.then(async () => { await db.$disconnect(); })\<close>,
  \<^verbatim>\<open>.catch(async (e) => { console.error(e); await db.$disconnect(); process.exit(1); })\<close>
  on a promise \<open>p\<close>. The result is the exit status of the process with the final world:
  0 when the chain resolves, 1 from \<^verbatim>\<open>process.exit(1)\<close>, which is the last statement
  of the rejection handler.
\<close>

definition on_fulfilled :: "unit \<Rightarrow> unit io" where
  "on_fulfilled u = disconnect"

definition on_rejected :: "error \<Rightarrow> unit io" where
  "on_rejected e = bind_io (console_error e) (\<lambda>u. disconnect)"

definition settle :: "unit io \<Rightarrow> world \<Rightarrow> nat \<times> world" where
  "settle p w =
     (case bind_io p on_fulfilled w of
        (Inr u, w') \<Rightarrow> (0, w')
      | (Inl e, w') \<Rightarrow> (1, snd (on_rejected e w')))"

definition seed :: "world \<Rightarrow> nat \<times> world" where
  "seed = settle main"

section \<open>The factory\<close>

text \<open>
  An object literal whose property values are read from another object: a property whose
  value is \<^verbatim>\<open>undefined\<close> is not sent to the client.
\<close>

fun literal :: "(string \<times> string option) list \<Rightarrow> obj" where
  "literal [] = []"
| "literal ((k, None) # ps) = literal ps"
| "literal ((k, Some v) # ps) = (k, v) # literal ps"

text \<open>
  \<^verbatim>\<open>categoryFactory\<close>: a one-word name from faker, one insertion whose data is
  \<^verbatim>\<open>{ name: categoryData.name }\<close>, and the record the client returned.
\<close>

definition categoryFactory :: "row io" where
  "categoryFactory =
     bind_io word (\<lambda>n.
       let categoryData = [(''name'', n)]
       in bind_io (create Category (literal [(''name'', property categoryData ''name'')]))
            (\<lambda>category. return_io category))"

section \<open>The test suite\<close>

text \<open>\<^verbatim>\<open>expect(...)\<close> raises when its matcher does not hold.\<close>

definition expect :: "bool \<Rightarrow> unit io" where
  "expect b = (if b then return_io () else throw_io AssertionFailed)"

text \<open>
  \<^verbatim>\<open>toEqual\<close> compares two values structurally: the same properties with the same
  values, in any order; \<^verbatim>\<open>null\<close> equals no record. \<^verbatim>\<open>toBe\<close> on two strings
  (or \<^verbatim>\<open>undefined\<close>) is equality.
\<close>

definition same_props :: "obj \<Rightarrow> obj \<Rightarrow> bool" where
  "same_props a b =
     (list_all (\<lambda>k. property a k = property b k) (map fst a) \<and>
      list_all (\<lambda>k. property a k = property b k) (map fst b))"

fun toEqual :: "row \<Rightarrow> row option \<Rightarrow> bool" where
  "toEqual r None = False"
| "toEqual r (Some r') = (ident r = ident r' \<and> same_props (cols r) (cols r'))"

definition toBe :: "string option \<Rightarrow> string option \<Rightarrow> bool" where
  "toBe a b = (a = b)"

text \<open>The payload of the Create test: full name, then email.\<close>

definition fakerUser_test :: "obj io" where
  "fakerUser_test = bind_io fullName (\<lambda>n. bind_io email (\<lambda>e. return_io [(''name'', n), (''email'', e)]))"

text \<open>The payload of the Update and Delete tests: email, then full name.\<close>

definition userData :: "obj io" where
  "userData = bind_io email (\<lambda>e. bind_io fullName (\<lambda>n. return_io [(''email'', e), (''name'', n)]))"

text \<open>\<^verbatim>\<open>test("should create new user")\<close>\<close>

definition test_create :: "unit io" where
  "test_create =
     bind_io fakerUser_test (\<lambda>d.
     bind_io (create User d) (\<lambda>createdUser.
     bind_io (findUnique User (ident createdUser)) (\<lambda>findCreatedUserInDb.
     expect (toEqual createdUser findCreatedUserInDb))))"

text \<open>\<^verbatim>\<open>test("should get all users")\<close>\<close>

definition test_get_all :: "unit io" where
  "test_get_all = bind_io (findMany User) (\<lambda>users. expect (length users > 0))"

text \<open>\<^verbatim>\<open>test("should update user information")\<close>\<close>

definition test_update :: "unit io" where
  "test_update =
     bind_io userData (\<lambda>d.
     bind_io (create User d) (\<lambda>createdUser.
     bind_io (expect (toBe (property (cols createdUser) ''email'') (property d ''email''))) (\<lambda>u.
     expect (toBe (property (cols createdUser) ''name'') (property d ''name'')))))"

text \<open>\<^verbatim>\<open>test("should delete a specific user")\<close>\<close>

definition test_delete :: "unit io" where
  "test_delete =
     bind_io userData (\<lambda>d.
     bind_io (create User d) (\<lambda>createdUser.
     bind_io (delete User (ident createdUser)) (\<lambda>deleted.
     bind_io (findUnique User (ident createdUser)) (\<lambda>foundUser.
     expect (foundUser = None)))))"

text \<open>
  \<^verbatim>\<open>test(" Test factory to Generate and insert five categories")\<close>: the loop pushes
  each record the factory returns onto \<^verbatim>\<open>createdCategories\<close>.
\<close>

function generate :: "nat \<Rightarrow> nat \<Rightarrow> row list \<Rightarrow> row list io" where
  "generate n i createdCategories w =
     (if i < n
      then (case categoryFactory w of
              (Inl e, w') \<Rightarrow> (Inl e, w')
            | (Inr createdCategory, w') \<Rightarrow>
                generate n (Suc i) (createdCategories @ [createdCategory]) w')
      else (Inr createdCategories, w))"
  by pat_completeness auto
termination
  by (relation "measure (\<lambda>(n, i, cs, w). n - i)") auto

declare generate.simps [simp del]

definition numberOfCategoriesToGenerate :: nat where
  "numberOfCategoriesToGenerate = 5"

definition test_factory :: "unit io" where
  "test_factory =
     bind_io (generate numberOfCategoriesToGenerate 0 [])
       (\<lambda>createdCategories. expect (length createdCategories = numberOfCategoriesToGenerate))"

section \<open>Notions used in the statements\<close>

text \<open>A request performed on the world, whatever its outcome.\<close>

fun perform :: "call \<Rightarrow> world \<Rightarrow> world" where
  "perform (Create k d) w = snd (create k d w)"
| "perform (FindUnique k i) w = snd (findUnique k i w)"
| "perform (FindMany k) w = snd (findMany k w)"
| "perform (Delete k i) w = snd (delete k i w)"
| "perform Disconnect w = snd (disconnect w)"

text \<open>
  What a run that leads from \<open>w\<close> to \<open>w'\<close> has sent to the client, and the records
  of kind \<open>k\<close> that follow those of \<open>w\<close> in \<open>w'\<close>.
\<close>

definition sent :: "world \<Rightarrow> world \<Rightarrow> (call \<times> bool) list" where
  "sent w w' = drop (length (journal w)) (journal w')"

definition added :: "kind \<Rightarrow> world \<Rightarrow> world \<Rightarrow> row list" where
  "added k w w' = drop (length (rows w k)) (rows w' k)"

text \<open>
  A journal entry is an insertion of kind \<open>k\<close> whose payload has exactly the
  properties \<open>ks\<close>, in this order; a journal entry is an insertion whose payload has an
  \<^verbatim>\<open>id\<close> property; and between \<open>w\<close> and \<open>w'\<close> the journal has only grown, by
  requests none of which supplies an identifier.
\<close>

definition is_insert :: "kind \<Rightarrow> string list \<Rightarrow> call \<times> bool \<Rightarrow> bool" where
  "is_insert k ks ev = (case fst ev of Create k' d \<Rightarrow> k' = k \<and> map fst d = ks | _ \<Rightarrow> False)"

definition supplies_id :: "call \<times> bool \<Rightarrow> bool" where
  "supplies_id ev = (case fst ev of Create k d \<Rightarrow> property d ''id'' \<noteq> None | _ \<Rightarrow> False)"

definition quiet :: "world \<Rightarrow> world \<Rightarrow> bool" where
  "quiet w w' =
     (take (length (journal w)) (journal w') = journal w \<and>
      \<not> list_ex supplies_id (sent w w'))"

text \<open>
  The store is reachable, the next \<open>K\<close> identifiers it will generate are pairwise
  different, and none of them is taken by a record of kind \<open>k\<close>.
\<close>

definition fresh_ids :: "nat \<Rightarrow> kind \<Rightarrow> world \<Rightarrow> bool" where
  "fresh_ids K k w =
     (reachable w \<and>
      distinct (map (\<lambda>j. uuid_string (uuids w (issued w + j))) [0..<K]) \<and>
      list_all (\<lambda>j. \<not> has_id (uuid_string (uuids w (issued w + j))) (rows w k)) [0..<K])"

section \<open>Concrete worlds\<close>

text \<open>
  A reachable, empty store whose generator counts upwards; the same store out of reach;
  and the same store with a generator that repeats itself, so that the second insertion
  of a kind violates the uniqueness rule. The payloads are the example of the
  specification and the one the factory builds in these worlds.
\<close>

definition world0 :: world where
  "world0 = \<lparr>reachable = True, rows = (\<lambda>k. []), uuids = (\<lambda>n. n), issued = 0,
     fake = (\<lambda>n. ''Ada''), drawn = 0, console = [], connected = False, journal = []\<rparr>"

definition offline :: world where
  "offline = world0\<lparr>reachable := False\<rparr>"

definition clash :: world where
  "clash = world0\<lparr>uuids := (\<lambda>n. 0)\<rparr>"

definition ada :: obj where
  "ada = [(''name'', ''Ada Lovelace''), (''email'', ''ada@example.com'')]"

definition ada_row :: row where
  "ada_row = \<lparr>ident = ''00000000-0000-0000-0000-000000000000'', cols = ada\<rparr>"

definition lorem :: obj where
  "lorem = [(''name'', ''Ada'')]"

definition lorem_row :: row where
  "lorem_row = \<lparr>ident = ''00000000-0000-0000-0000-000000000000'', cols = lorem\<rparr>"

section \<open>Basic facts about the client\<close>

lemma uuid_string_nonempty: "uuid_string n \<noteq> []"
  by (simp add: uuid_string_def)

lemma bind_io_Inr: "m w = (Inr x, w') \<Longrightarrow> bind_io m f w = f x w'"
  by (simp add: bind_io_def)

lemma bind_io_Inl: "m w = (Inl e, w') \<Longrightarrow> bind_io m f w = (Inl e, w')"
  by (simp add: bind_io_def)

lemma create_Inr:
  assumes "create k d w = (Inr r, w')"
  shows "reachable w"
    and "r = \<lparr>ident = uuid_string (uuids w (issued w)), cols = d\<rparr>"
    and "\<not> has_id (ident r) (rows w k)"
    and "w' = received (Create k d) True
                (w\<lparr>issued := Suc (issued w), rows := (rows w)(k := rows w k @ [r])\<rparr>)"
  using assms by (auto simp: create_def Let_def split: if_splits)

lemma create_Inl:
  assumes "create k d w = (Inl e, w')"
  shows "rows w' = rows w"
    and "journal w' = journal w @ [(Create k d, False)]"
    and "console w' = console w"
    and "e = ConstraintViolation \<or> e = ConnectivityFailure"
  using assms by (auto simp: create_def received_def Let_def split: if_splits)

lemma find_append_new:
  "\<not> has_id (ident r) rs \<Longrightarrow> find (\<lambda>x. ident x = ident r) (rs @ [r]) = Some r"
  by (induction rs) (auto simp: has_id_def)

lemma filter_append_new:
  "\<not> has_id (ident r) rs \<Longrightarrow> filter (\<lambda>x. ident x = ident r) (rs @ [r]) = [r]"
  by (induction rs) (auto simp: has_id_def)

lemma find_filter_none: "find (\<lambda>x. ident x = i) (filter (\<lambda>x. ident x \<noteq> i) rs) = None"
  by (induction rs) auto

lemma create_rows:
  "create k d w = (Inr r, w') \<Longrightarrow> rows w' k = rows w k @ [r] \<and> reachable w'"
  by (auto simp: create_def received_def Let_def split: if_splits)

lemma same_props_refl: "same_props a a"
  by (simp add: same_props_def list_all_iff)

lemma create_then_find:
  assumes "create k d w = (Inr r, w1)"
  shows "findUnique k (ident r) w1 = (Inr (Some r), received (FindUnique k (ident r)) True w1)"
proof -
  have "rows w1 k = rows w k @ [r]" and "reachable w1"
    using create_rows [OF assms] by simp_all
  moreover have "\<not> has_id (ident r) (rows w k)"
    using create_Inr(3) [OF assms] .
  ultimately show ?thesis
    by (simp add: findUnique_def find_append_new)
qed

lemma create_then_delete:
  assumes "create k d w = (Inr r, w1)"
  shows "\<exists>w2. delete k (ident r) w1 = (Inr r, w2) \<and> reachable w2 \<and>
           rows w2 k = filter (\<lambda>x. ident x \<noteq> ident r) (rows w1 k)"
proof -
  have "rows w1 k = rows w k @ [r]" and "reachable w1"
    using create_rows [OF assms] by simp_all
  moreover have "\<not> has_id (ident r) (rows w k)"
    using create_Inr(3) [OF assms] .
  ultimately show ?thesis
    by (simp add: delete_def find_append_new received_def)
qed

lemma delete_then_find:
  assumes "delete k i w = (Inr r, w2)"
  shows "findUnique k i w2 = (Inr None, received (FindUnique k i) True w2)"
  using assms
  by (auto simp: delete_def findUnique_def received_def find_filter_none
      split: if_splits option.splits)

lemma hex_numeral: "hex (numeral k) n = hex (pred_numeral k) (n div 16) @ [hex_digit n]"
  using hex.simps(2) [of "pred_numeral k" n] by (simp only: numeral_eq_Suc [symmetric])

lemma uuid_string_0: "uuid_string 0 = ''00000000-0000-0000-0000-000000000000''"
  by (simp add: uuid_string_def hex_digit_def hex_numeral)

lemma create_ada:
  "create User ada world0 = (Inr ada_row, snd (create User ada world0))"
  by (simp add: create_def world0_def ada_def ada_row_def property_def has_id_def Let_def
      uuid_string_0)

lemma perform_rows:
  assumes "x \<in> set (rows (perform c w) k)"
  shows "x \<in> set (rows w k) \<or> (c = Create k (cols x) \<and> fst (create k (cols x) w) = Inr x)"
proof (cases c)
  case (Create k' d)
  show ?thesis
  proof (cases "create k' d w")
    case (Pair res w')
    show ?thesis
    proof (cases res)
      case (Inl e)
      with Pair Create assms create_Inl(1) [of k' d w e w'] show ?thesis by simp
    next
      case (Inr r)
      with Pair have c: "create k' d w = (Inr r, w')" by simp
      have "rows w' = (rows w)(k' := rows w k' @ [r])"
        using create_Inr(4) [OF c] by (simp add: received_def)
      moreover have "cols r = d" using create_Inr(2) [OF c] by simp
      ultimately show ?thesis using assms Create c by (auto split: if_splits)
    qed
  qed
next
  case (FindUnique k' i)
  with assms show ?thesis by (simp add: findUnique_def received_def split: if_splits)
next
  case (FindMany k')
  with assms show ?thesis by (simp add: findMany_def received_def split: if_splits)
next
  case (Delete k' i)
  with assms show ?thesis
    by (auto simp: delete_def received_def split: if_splits option.splits)
next
  case Disconnect
  with assms show ?thesis by (simp add: disconnect_def)
qed

section \<open>Identifiers\<close>

text \<open>
  C8. For every valid insertion of any entity kind, the identifier of the returned record
  is non-empty and unique across all records of that kind in the store after the
  insertion (exactly one stored record carries it, the returned one). The identifier is
  assigned at creation and never changes: whatever request the client performs, each
  record held afterwards was held before, unchanged, or is the record that this very
  request created.
\<close>

theorem identifier_assigned_once:
  "(create k d w = (Inr r, w') \<longrightarrow>
      ident r \<noteq> [] \<and> filter (\<lambda>x. ident x = ident r) (rows w' k) = [r]) \<and>
   (\<forall>x \<in> set (rows (perform c w) k).
      x \<in> set (rows w k) \<or> (c = Create k (cols x) \<and> fst (create k (cols x) w) = Inr x))"
proof (intro conjI impI ballI)
  assume c: "create k d w = (Inr r, w')"
  show "ident r \<noteq> []"
    using create_Inr(2) [OF c] by (simp add: uuid_string_nonempty)
  show "filter (\<lambda>x. ident x = ident r) (rows w' k) = [r]"
    using create_rows [OF c] create_Inr(3) [OF c] by (metis filter_append_new)
next
  fix x assume "x \<in> set (rows (perform c w) k)"
  then show "x \<in> set (rows w k) \<or> (c = Create k (cols x) \<and> fst (create k (cols x) w) = Inr x)"
    by (rule perform_rows)
qed

theorem identifier_assigned_once_witness:
  "create User ada world0 = (Inr ada_row, snd (create User ada world0)) \<and>
   ident ada_row \<noteq> [] \<and>
   filter (\<lambda>x. ident x = ident ada_row) (rows (snd (create User ada world0)) User) = [ada_row] \<and>
   ada_row \<in> set (rows (perform (Create User ada) world0) User) \<and>
   ada_row \<notin> set (rows world0 User)"
proof -
  have h: "create User ada world0 = (Inr ada_row, snd (create User ada world0))"
    by (rule create_ada)
  note t = identifier_assigned_once
    [of User ada world0 ada_row "snd (create User ada world0)" "Create User ada"]
  have a: "ident ada_row \<noteq> [] \<and>
    filter (\<lambda>x. ident x = ident ada_row) (rows (snd (create User ada world0)) User) = [ada_row]"
    by (rule mp [OF conjunct1 [OF t] h])
  have b: "ada_row \<in> set (rows (perform (Create User ada) world0) User)"
    using create_rows [OF h] by simp
  have c: "ada_row \<notin> set (rows world0 User)"
    by (simp add: world0_def)
  show ?thesis
    by (intro conjI) (rule h conjunct1 [OF a] conjunct2 [OF a] b c)+
qed

section \<open>The Create test\<close>

lemma fakerUser_run:
  "fakerUser w =
     (Inr [(''name'', fake w (drawn w)), (''email'', fake w (Suc (drawn w)))],
      w\<lparr>drawn := Suc (Suc (drawn w))\<rparr>)"
  by (simp add: fakerUser_def firstName_def email_def faker_next_def bind_io_def return_io_def)

lemma fakerUser_test_run:
  "fakerUser_test w =
     (Inr [(''name'', fake w (drawn w)), (''email'', fake w (Suc (drawn w)))],
      w\<lparr>drawn := Suc (Suc (drawn w))\<rparr>)"
  by (simp add: fakerUser_test_def fullName_def email_def faker_next_def bind_io_def
      return_io_def)

lemma userData_run:
  "userData w =
     (Inr [(''email'', fake w (drawn w)), (''name'', fake w (Suc (drawn w)))],
      w\<lparr>drawn := Suc (Suc (drawn w))\<rparr>)"
  by (simp add: userData_def fullName_def email_def faker_next_def bind_io_def return_io_def)

lemma create_succeeds:
  assumes "reachable w" and "list_all (\<lambda>f. property d f \<noteq> None) (required k)"
    and "references_ok k d w" and "\<not> has_id (uuid_string (uuids w (issued w))) (rows w k)"
  shows "\<exists>w'. create k d w = (Inr \<lparr>ident = uuid_string (uuids w (issued w)), cols = d\<rparr>, w')"
  using assms by (simp add: create_def Let_def)

lemma create_result:
  obtains (rejected) e w' where "create k d w = (Inl e, w')" and "e \<noteq> AssertionFailed"
  | (resolved) r w' where "create k d w = (Inr r, w')"
proof (cases "create k d w")
  case (Pair res w')
  show ?thesis
  proof (cases res)
    case (Inl e)
    with Pair have c: "create k d w = (Inl e, w')" by simp
    from create_Inl(4) [OF c] have "e \<noteq> AssertionFailed" by auto
    with c show ?thesis by (rule rejected)
  next
    case (Inr r)
    with Pair show ?thesis by (auto intro: resolved)
  qed
qed

lemma toEqual_same: "toEqual r (Some r)"
  by (simp add: same_props_refl)

lemma test_create_after:
  assumes "create User [(''name'', fake w (drawn w)), (''email'', fake w (Suc (drawn w)))]
             (w\<lparr>drawn := Suc (Suc (drawn w))\<rparr>) = (res, w1)"
  shows "fst (test_create w) = (case res of Inl e \<Rightarrow> Inl e | Inr r \<Rightarrow> Inr ())"
proof (cases res)
  case (Inl e)
  with assms show ?thesis
    by (simp add: test_create_def bind_io_def fakerUser_test_run)
next
  case (Inr r)
  with assms have c: "create User [(''name'', fake w (drawn w)), (''email'', fake w (Suc (drawn w)))]
             (w\<lparr>drawn := Suc (Suc (drawn w))\<rparr>) = (Inr r, w1)" by simp
  show ?thesis
    using Inr
    by (simp add: test_create_def bind_io_def fakerUser_test_run c create_then_find [OF c]
        expect_def return_io_def same_props_refl)
qed

lemma test_delete_after:
  assumes "create User [(''email'', fake w (drawn w)), (''name'', fake w (Suc (drawn w)))]
             (w\<lparr>drawn := Suc (Suc (drawn w))\<rparr>) = (res, w1)"
  shows "fst (test_delete w) = (case res of Inl e \<Rightarrow> Inl e | Inr r \<Rightarrow> Inr ())"
proof (cases res)
  case (Inl e)
  with assms show ?thesis
    by (simp add: test_delete_def bind_io_def userData_run)
next
  case (Inr r)
  with assms have c: "create User [(''email'', fake w (drawn w)), (''name'', fake w (Suc (drawn w)))]
             (w\<lparr>drawn := Suc (Suc (drawn w))\<rparr>) = (Inr r, w1)" by simp
  from create_then_delete [OF c] obtain w2 where d: "delete User (ident r) w1 = (Inr r, w2)"
    by blast
  show ?thesis
    using Inr
    by (simp add: test_delete_def bind_io_def userData_run c d delete_then_find [OF d]
        expect_def return_io_def)
qed

lemma test_update_after:
  assumes "create User [(''email'', fake w (drawn w)), (''name'', fake w (Suc (drawn w)))]
             (w\<lparr>drawn := Suc (Suc (drawn w))\<rparr>) = (res, w1)"
  shows "test_update w = (case res of Inl e \<Rightarrow> Inl e | Inr r \<Rightarrow> Inr (), w1)"
proof (cases res)
  case (Inl e)
  with assms show ?thesis
    by (simp add: test_update_def bind_io_def userData_run)
next
  case (Inr r)
  with assms have c: "create User [(''email'', fake w (drawn w)), (''name'', fake w (Suc (drawn w)))]
             (w\<lparr>drawn := Suc (Suc (drawn w))\<rparr>) = (Inr r, w1)" by simp
  have "cols r = [(''email'', fake w (drawn w)), (''name'', fake w (Suc (drawn w)))]"
    using create_Inr(2) [OF c] by simp
  then show ?thesis
    using Inr
    by (simp add: test_update_def bind_io_def userData_run c expect_def return_io_def toBe_def)
qed

lemma world0_fresh:
  "reachable world0 \<and> \<not> has_id (uuid_string (uuids world0 (issued world0))) (rows world0 User)"
  by (simp add: world0_def has_id_def)

text \<open>
  C2. For every synthesized User record with name and email, inserting it and then
  fetching by the identifier the insertion returned yields a record structurally equal
  to the inserted one, so the round-trip assertion of the Create test holds: the test
  never fails by its assertion, and it passes whenever the store is reachable and the
  identifier it generates is not taken.
\<close>

theorem create_then_fetch_equal:
  "(create User d w = (Inr r, w1) \<longrightarrow>
      fst (findUnique User (ident r) w1) = Inr (Some r) \<and> toEqual r (Some r)) \<and>
   fst (test_create w) \<noteq> Inl AssertionFailed \<and>
   (reachable w \<and> \<not> has_id (uuid_string (uuids w (issued w))) (rows w User) \<longrightarrow>
      fst (test_create w) = Inr ())"
proof (intro conjI impI)
  assume c: "create User d w = (Inr r, w1)"
  show "fst (findUnique User (ident r) w1) = Inr (Some r)"
    by (simp add: create_then_find [OF c])
  show "toEqual r (Some r)"
    by (rule toEqual_same)
next
  let ?d = "[(''name'', fake w (drawn w)), (''email'', fake w (Suc (drawn w)))]"
  let ?w = "w\<lparr>drawn := Suc (Suc (drawn w))\<rparr>"
  show "fst (test_create w) \<noteq> Inl AssertionFailed"
  proof (cases rule: create_result [of User ?d ?w])
    case (rejected e w')
    then show ?thesis using test_create_after [of w "Inl e" w'] by simp
  next
    case (resolved r w')
    then show ?thesis using test_create_after [of w "Inr r" w'] by simp
  qed
next
  let ?d = "[(''name'', fake w (drawn w)), (''email'', fake w (Suc (drawn w)))]"
  let ?w = "w\<lparr>drawn := Suc (Suc (drawn w))\<rparr>"
  assume "reachable w \<and> \<not> has_id (uuid_string (uuids w (issued w))) (rows w User)"
  then obtain w' where
    "create User ?d ?w = (Inr \<lparr>ident = uuid_string (uuids ?w (issued ?w)), cols = ?d\<rparr>, w')"
    using create_succeeds [of ?w ?d User] by (auto simp: property_def)
  then show "fst (test_create w) = Inr ()"
    using test_create_after [of w _ w'] by simp
qed

theorem create_then_fetch_equal_witness:
  "create User ada world0 = (Inr ada_row, snd (create User ada world0)) \<and>
   fst (findUnique User (ident ada_row) (snd (create User ada world0))) = Inr (Some ada_row) \<and>
   reachable world0 \<and>
   \<not> has_id (uuid_string (uuids world0 (issued world0))) (rows world0 User) \<and>
   fst (test_create world0) = Inr ()"
proof -
  note t = create_then_fetch_equal [of ada world0 ada_row "snd (create User ada world0)"]
  have a: "fst (findUnique User (ident ada_row) (snd (create User ada world0))) = Inr (Some ada_row)"
    by (rule conjunct1 [OF mp [OF conjunct1 [OF t] create_ada]])
  have b: "fst (test_create world0) = Inr ()"
    by (rule mp [OF conjunct2 [OF conjunct2 [OF t]] world0_fresh])
  show ?thesis
    by (intro conjI)
      (rule create_ada a conjunct1 [OF world0_fresh] conjunct2 [OF world0_fresh] b)+
qed

section \<open>The Delete test\<close>

text \<open>
  C3. After inserting a record and deleting it by its identifier, the deletion succeeds
  and a fetch by that identifier returns the explicit empty result, not an error. More
  generally a fetch after any successful deletion of that identifier is empty, and a
  fetch never fails for "not found". The Delete test never fails by its assertion and
  passes whenever the store is reachable and the generated identifier is not taken.
\<close>

theorem deleted_record_fetch_is_empty:
  "(create User d w = (Inr r, w1) \<longrightarrow>
      (\<exists>w2. delete User (ident r) w1 = (Inr r, w2) \<and>
         fst (findUnique User (ident r) w2) = Inr None)) \<and>
   (delete k i w = (Inr r', w') \<longrightarrow> fst (findUnique k i w') = Inr None) \<and>
   fst (findUnique k i w) \<noteq> Inl RecordNotFound \<and>
   fst (test_delete w) \<noteq> Inl AssertionFailed \<and>
   (reachable w \<and> \<not> has_id (uuid_string (uuids w (issued w))) (rows w User) \<longrightarrow>
      fst (test_delete w) = Inr ())"
proof (intro conjI impI)
  assume c: "create User d w = (Inr r, w1)"
  from create_then_delete [OF c] obtain w2 where d: "delete User (ident r) w1 = (Inr r, w2)"
    by blast
  have "fst (findUnique User (ident r) w2) = Inr None"
    by (simp add: delete_then_find [OF d])
  with d show "\<exists>w2. delete User (ident r) w1 = (Inr r, w2) \<and>
      fst (findUnique User (ident r) w2) = Inr None"
    by blast
next
  assume "delete k i w = (Inr r', w')"
  then show "fst (findUnique k i w') = Inr None"
    by (simp add: delete_then_find)
next
  show "fst (findUnique k i w) \<noteq> Inl RecordNotFound"
    by (simp add: findUnique_def)
next
  let ?d = "[(''email'', fake w (drawn w)), (''name'', fake w (Suc (drawn w)))]"
  let ?w = "w\<lparr>drawn := Suc (Suc (drawn w))\<rparr>"
  show "fst (test_delete w) \<noteq> Inl AssertionFailed"
  proof (cases rule: create_result [of User ?d ?w])
    case (rejected e w')
    then show ?thesis using test_delete_after [of w "Inl e" w'] by simp
  next
    case (resolved r w')
    then show ?thesis using test_delete_after [of w "Inr r" w'] by simp
  qed
next
  let ?d = "[(''email'', fake w (drawn w)), (''name'', fake w (Suc (drawn w)))]"
  let ?w = "w\<lparr>drawn := Suc (Suc (drawn w))\<rparr>"
  assume "reachable w \<and> \<not> has_id (uuid_string (uuids w (issued w))) (rows w User)"
  then obtain w' where
    "create User ?d ?w = (Inr \<lparr>ident = uuid_string (uuids ?w (issued ?w)), cols = ?d\<rparr>, w')"
    using create_succeeds [of ?w ?d User] by (auto simp: property_def)
  then show "fst (test_delete w) = Inr ()"
    using test_delete_after [of w _ w'] by simp
qed

lemma delete_ada:
  "delete User (ident ada_row) (snd (create User ada world0)) =
     (Inr ada_row, snd (delete User (ident ada_row) (snd (create User ada world0))))"
proof -
  from create_then_delete [OF create_ada] obtain w2 where
    "delete User (ident ada_row) (snd (create User ada world0)) = (Inr ada_row, w2)"
    by blast
  then show ?thesis by simp
qed

theorem deleted_record_fetch_is_empty_witness:
  "create User ada world0 = (Inr ada_row, snd (create User ada world0)) \<and>
   delete User (ident ada_row) (snd (create User ada world0)) =
     (Inr ada_row, snd (delete User (ident ada_row) (snd (create User ada world0)))) \<and>
   fst (findUnique User (ident ada_row)
     (snd (delete User (ident ada_row) (snd (create User ada world0))))) = Inr None \<and>
   reachable world0 \<and>
   \<not> has_id (uuid_string (uuids world0 (issued world0))) (rows world0 User) \<and>
   fst (test_delete world0) = Inr ()"
proof -
  note t = deleted_record_fetch_is_empty
    [where d = ada and w = world0 and r = ada_row and ?w1.0 = "snd (create User ada world0)"]
  have a: "fst (findUnique User (ident ada_row)
     (snd (delete User (ident ada_row) (snd (create User ada world0))))) = Inr None"
    using mp [OF conjunct1 [OF t] create_ada] by auto
  have b: "fst (test_delete world0) = Inr ()"
    by (rule mp [OF conjunct2 [OF conjunct2 [OF conjunct2 [OF conjunct2 [OF t]]]] world0_fresh])
  show ?thesis
    by (intro conjI)
      (rule create_ada delete_ada a conjunct1 [OF world0_fresh] conjunct2 [OF world0_fresh] b)+
qed

section \<open>The Update test\<close>

lemma create_journal:
  "journal (snd (create k d w)) =
     journal w @ [(Create k d, case fst (create k d w) of Inl e \<Rightarrow> False | Inr r \<Rightarrow> True)]"
  by (simp add: create_def received_def Let_def)

lemma create_rows_prefix:
  "take (length (rows w k')) (rows (snd (create k d w)) k') = rows w k'"
  by (simp add: create_def received_def Let_def)

text \<open>
  C7. The record returned by inserting a User has exactly the name and the email that
  were given. The Update test never fails by its assertion; it sends the client one
  request only, the insertion of its own payload, and every record that was stored
  before is still there, unchanged: no in-place update is performed.
\<close>

theorem create_preserves_name_and_email:
  "(create User d w = (Inr r, w') \<longrightarrow>
      toBe (property (cols r) ''email'') (property d ''email'') \<and>
      toBe (property (cols r) ''name'') (property d ''name'')) \<and>
   fst (test_update w) \<noteq> Inl AssertionFailed \<and>
   (\<exists>ok. journal (snd (test_update w)) =
      journal w @
        [(Create User [(''email'', fake w (drawn w)), (''name'', fake w (Suc (drawn w)))], ok)]) \<and>
   take (length (rows w k)) (rows (snd (test_update w)) k) = rows w k"
proof -
  let ?d = "[(''email'', fake w (drawn w)), (''name'', fake w (Suc (drawn w)))]"
  let ?w = "w\<lparr>drawn := Suc (Suc (drawn w))\<rparr>"
  have run: "test_update w =
      (case fst (create User ?d ?w) of Inl e \<Rightarrow> Inl e | Inr r \<Rightarrow> Inr (), snd (create User ?d ?w))"
    by (rule test_update_after) simp
  have 1: "create User d w = (Inr r, w') \<longrightarrow>
      toBe (property (cols r) ''email'') (property d ''email'') \<and>
      toBe (property (cols r) ''name'') (property d ''name'')"
  proof
    assume c: "create User d w = (Inr r, w')"
    have "cols r = d" using create_Inr(2) [OF c] by simp
    then show "toBe (property (cols r) ''email'') (property d ''email'') \<and>
      toBe (property (cols r) ''name'') (property d ''name'')"
      by (simp add: toBe_def)
  qed
  have 2: "fst (test_update w) \<noteq> Inl AssertionFailed"
  proof (cases rule: create_result [of User ?d ?w])
    case (rejected e w')
    then show ?thesis by (simp add: run)
  next
    case (resolved r w')
    then show ?thesis by (simp add: run)
  qed
  have 3: "\<exists>ok. journal (snd (test_update w)) = journal w @ [(Create User ?d, ok)]"
    using create_journal [of User ?d ?w] by (simp add: run)
  have 4: "take (length (rows w k)) (rows (snd (test_update w)) k) = rows w k"
    using create_rows_prefix [of ?w k User ?d] by (simp add: run)
  from 1 2 3 4 show ?thesis by (intro conjI)
qed

theorem create_preserves_name_and_email_witness:
  "create User ada world0 = (Inr ada_row, snd (create User ada world0)) \<and>
   property (cols ada_row) ''email'' = Some ''ada@example.com'' \<and>
   property (cols ada_row) ''name'' = Some ''Ada Lovelace'' \<and>
   fst (test_update world0) \<noteq> Inl AssertionFailed"
proof -
  note t = create_preserves_name_and_email
    [where d = ada and w = world0 and r = ada_row and w' = "snd (create User ada world0)"]
  have a: "toBe (property (cols ada_row) ''email'') (property ada ''email'') \<and>
      toBe (property (cols ada_row) ''name'') (property ada ''name'')"
    by (rule mp [OF conjunct1 [OF t] create_ada])
  have b: "property (cols ada_row) ''email'' = Some ''ada@example.com''"
    using conjunct1 [OF a] by (simp add: toBe_def ada_def property_def)
  have c: "property (cols ada_row) ''name'' = Some ''Ada Lovelace''"
    using conjunct2 [OF a] by (simp add: toBe_def ada_def property_def)
  show ?thesis
    by (intro conjI) (rule create_ada b c conjunct1 [OF conjunct2 [OF t]])+
qed

section \<open>The factory's contract\<close>

lemma categoryFactory_run:
  "categoryFactory w = create Category [(''name'', fake w (drawn w))] (w\<lparr>drawn := Suc (drawn w)\<rparr>)"
  by (simp add: categoryFactory_def word_def faker_next_def bind_io_def return_io_def
      property_def split: prod.splits sum.splits)

lemma fresh_ids_0: "fresh_ids 0 k w = reachable w"
  by (simp add: fresh_ids_def)

lemma fresh_ids_Suc:
  assumes "fresh_ids (Suc K) k w"
  shows "reachable w" and "\<not> has_id (uuid_string (uuids w (issued w))) (rows w k)"
  using assms by (simp_all add: fresh_ids_def upt_conv_Cons del: upt_Suc)

lemma fresh_ids_step:
  assumes f: "fresh_ids (Suc K) k w"
    and w1: "reachable w1" "uuids w1 = uuids w" "issued w1 = Suc (issued w)"
      "rows w1 k = rows w k @ [r]" "ident r = uuid_string (uuids w (issued w))"
  shows "fresh_ids K k w1"
proof -
  let ?f = "\<lambda>j. uuid_string (uuids w (issued w + j))"
  have inj: "inj_on ?f {0..<Suc K}"
    using f by (simp add: fresh_ids_def distinct_map del: upt_Suc)
  have out: "\<forall>j < Suc K. \<not> has_id (?f j) (rows w k)"
    using f by (simp add: fresh_ids_def list_all_iff del: upt_Suc)
  have "inj_on (\<lambda>j. ?f (Suc j)) {0..<K}"
  proof (rule inj_onI)
    fix x y assume "x \<in> {0..<K}" "y \<in> {0..<K}" "?f (Suc x) = ?f (Suc y)"
    then have "Suc x = Suc y" using inj_onD [OF inj, of "Suc x" "Suc y"] by simp
    then show "x = y" by simp
  qed
  then have 1: "distinct (map (\<lambda>j. uuid_string (uuids w1 (issued w1 + j))) [0..<K])"
    by (simp add: distinct_map w1)
  have "\<forall>j < K. \<not> has_id (?f (Suc j)) (rows w k @ [r])"
  proof (intro allI impI)
    fix j assume j: "j < K"
    then have "\<not> has_id (?f (Suc j)) (rows w k)" using out [rule_format, of "Suc j"] by simp
    moreover have "?f (Suc j) \<noteq> ?f 0"
      using inj_onD [OF inj, of "Suc j" 0] j by auto
    ultimately show "\<not> has_id (?f (Suc j)) (rows w k @ [r])"
      using w1(5) by (simp add: has_id_def)
  qed
  then have 2: "list_all (\<lambda>j. \<not> has_id (uuid_string (uuids w1 (issued w1 + j))) (rows w1 k)) [0..<K]"
    by (simp add: list_all_iff w1)
  from 1 2 w1(1) show ?thesis by (simp add: fresh_ids_def)
qed

lemma create_fresh:
  assumes "fresh_ids (Suc K) k w" and "list_all (\<lambda>f. property d f \<noteq> None) (required k)"
    and "references_ok k d w"
  shows "\<exists>r w1. create k d w = (Inr r, w1) \<and> fresh_ids K k w1"
proof -
  from create_succeeds [OF fresh_ids_Suc(1) [OF assms(1)] assms(2,3) fresh_ids_Suc(2) [OF assms(1)]]
  obtain w1 where c: "create k d w = (Inr \<lparr>ident = uuid_string (uuids w (issued w)), cols = d\<rparr>, w1)"
    by blast
  let ?r = "\<lparr>ident = uuid_string (uuids w (issued w)), cols = d\<rparr>"
  have w1: "w1 = received (Create k d) True
      (w\<lparr>issued := Suc (issued w), rows := (rows w)(k := rows w k @ [?r])\<rparr>)"
    by (rule create_Inr(4) [OF c])
  have "fresh_ids K k w1"
    by (rule fresh_ids_step [OF assms(1), of w1 ?r])
      (simp_all add: w1 received_def fresh_ids_Suc(1) [OF assms(1)])
  with c show ?thesis by blast
qed

lemma fresh_ids_drawn: "fresh_ids K k (w\<lparr>drawn := n\<rparr>) = fresh_ids K k w"
  by (simp add: fresh_ids_def)

lemma generate_Inr:
  "generate n i acc w = (Inr cs, w') \<Longrightarrow>
     \<exists>new. cs = acc @ new \<and> length new = n - i \<and>
       rows w' Category = rows w Category @ new \<and> distinct (map ident new) \<and>
       (\<forall>x \<in> set new. \<not> has_id (ident x) (rows w Category))"
proof (induction n i acc w arbitrary: cs w' rule: generate.induct)
  case (1 n i acc w)
  show ?case
  proof (cases "i < n")
    case False
    with "1.prems" show ?thesis by (simp add: generate.simps)
  next
    case True
    obtain res w1 where cf: "categoryFactory w = (res, w1)" by (cases "categoryFactory w")
    show ?thesis
    proof (cases res)
      case (Inl e)
      with "1.prems" True cf show ?thesis by (simp add: generate.simps)
    next
      case (Inr c)
      with "1.prems" True cf
      have g: "generate n (Suc i) (acc @ [c]) w1 = (Inr cs, w')"
        by (simp add: generate.simps)
      from cf Inr have cr: "create Category [(''name'', fake w (drawn w))]
          (w\<lparr>drawn := Suc (drawn w)\<rparr>) = (Inr c, w1)"
        by (simp add: categoryFactory_run)
      have r1: "rows w1 Category = rows w Category @ [c]"
        using create_rows [OF cr] by simp
      have n1: "\<not> has_id (ident c) (rows w Category)"
        using create_Inr(3) [OF cr] by simp
      from "1.IH" [OF True cf [symmetric] Inr g]
      obtain new where new: "cs = (acc @ [c]) @ new" "length new = n - Suc i"
        "rows w' Category = rows w1 Category @ new" "distinct (map ident new)"
        "\<forall>x \<in> set new. \<not> has_id (ident x) (rows w1 Category)"
        by blast
      have "cs = acc @ (c # new)" using new(1) by simp
      moreover have "length (c # new) = n - i" using new(2) True by simp
      moreover have "rows w' Category = rows w Category @ (c # new)"
        using new(3) r1 by simp
      moreover have "distinct (map ident (c # new))"
        using new(4,5) r1 by (auto simp: has_id_def)
      moreover have "\<forall>x \<in> set (c # new). \<not> has_id (ident x) (rows w Category)"
        using new(5) r1 n1 by (auto simp: has_id_def)
      ultimately show ?thesis by blast
    qed
  qed
qed

lemma generate_fresh:
  "fresh_ids (n - i) Category w \<Longrightarrow> \<exists>cs w'. generate n i acc w = (Inr cs, w')"
proof (induction n i acc w rule: generate.induct)
  case (1 n i acc w)
  show ?case
  proof (cases "i < n")
    case False
    then show ?thesis by (simp add: generate.simps)
  next
    case True
    then have "n - i = Suc (n - Suc i)" by simp
    with "1.prems" have f: "fresh_ids (Suc (n - Suc i)) Category (w\<lparr>drawn := Suc (drawn w)\<rparr>)"
      by (simp add: fresh_ids_drawn)
    from create_fresh [OF f, of "[(''name'', fake w (drawn w))]"]
    obtain c w1 where cr: "create Category [(''name'', fake w (drawn w))]
          (w\<lparr>drawn := Suc (drawn w)\<rparr>) = (Inr c, w1)" and f1: "fresh_ids (n - Suc i) Category w1"
      by (auto simp: property_def)
    then have cf: "categoryFactory w = (Inr c, w1)" by (simp add: categoryFactory_run)
    from "1.IH" [OF True cf [symmetric] refl f1]
    obtain cs w' where "generate n (Suc i) (acc @ [c]) w1 = (Inr cs, w')" by blast
    with True cf have "generate n i acc w = (Inr cs, w')" by (simp add: generate.simps)
    then show ?thesis by blast
  qed
qed

lemma generate_Inl:
  "generate n i acc w = (Inl e, w') \<Longrightarrow> e \<noteq> AssertionFailed"
proof (induction n i acc w rule: generate.induct)
  case (1 n i acc w)
  show ?case
  proof (cases "i < n")
    case False
    with "1.prems" show ?thesis by (simp add: generate.simps)
  next
    case True
    obtain res w1 where cf: "categoryFactory w = (res, w1)" by (cases "categoryFactory w")
    show ?thesis
    proof (cases res)
      case (Inl e')
      with "1.prems" True cf have "e' = e" by (simp add: generate.simps)
      with cf Inl have "create Category [(''name'', fake w (drawn w))]
          (w\<lparr>drawn := Suc (drawn w)\<rparr>) = (Inl e, w1)"
        by (simp add: categoryFactory_run)
      from create_Inl(4) [OF this] show ?thesis by auto
    next
      case (Inr c)
      with "1.prems" True cf
      have "generate n (Suc i) (acc @ [c]) w1 = (Inl e, w')"
        by (simp add: generate.simps)
      from "1.IH" [OF True cf [symmetric] Inr this] show ?thesis .
    qed
  qed
qed

lemma categoryFactory_world0:
  "categoryFactory world0 = (Inr lorem_row, snd (categoryFactory world0))"
  by (simp add: categoryFactory_run create_def world0_def lorem_def lorem_row_def property_def
      has_id_def Let_def uuid_string_0)

lemma categoryFactory_offline:
  "categoryFactory offline = (Inl ConnectivityFailure, snd (categoryFactory offline))"
  by (simp add: categoryFactory_run create_def world0_def offline_def)

lemma last_hex: "last (xs @ hex (Suc k) n) = hex_digit n"
  by simp

lemma last_uuid_string: "last (uuid_string n) = hex_digit n"
proof -
  have e: "(12::nat) = Suc 11" by simp
  show ?thesis
    unfolding uuid_string_def e by (simp only: append_assoc [symmetric] last_hex)
qed

lemma hex_digit_inj:
  assumes "hex_digit a = hex_digit b"
  shows "a mod 16 = b mod 16"
proof -
  have "distinct ''0123456789abcdef''" by simp
  from nth_eq_iff_index_eq [OF this, of "a mod 16" "b mod 16"] assms
  show ?thesis by (simp add: hex_digit_def)
qed

lemma uuid_string_inj:
  assumes "uuid_string a = uuid_string b" and "a < 16" and "b < 16"
  shows "a = b"
proof -
  from assms(1) have "last (uuid_string a) = last (uuid_string b)" by simp
  then have "hex_digit a = hex_digit b" by (simp only: last_uuid_string)
  then have "a mod 16 = b mod 16" by (rule hex_digit_inj)
  with assms(2,3) show ?thesis by simp
qed

lemma fresh_ids_world0:
  assumes "K \<le> 16"
  shows "fresh_ids K k world0"
proof -
  have "inj_on (\<lambda>j. uuid_string (uuids world0 (issued world0 + j))) {0..<K}"
    using assms by (auto simp: world0_def intro!: inj_onI uuid_string_inj)
  then show ?thesis
    by (simp add: fresh_ids_def distinct_map list_all_iff has_id_def world0_def)
qed

text \<open>
  C5. The factory takes no parameters (it is a computation, not a function of an
  argument). Its outcome is exactly the outcome of the one insertion it requests: on
  success it returns the record the store persisted, with the identifier the store
  assigned, and that record is the newest Category in the store; on failure it rejects
  with the same error and the same world, nothing is stored or printed, and the journal
  shows the single failed request, so there is no retry, no validation and no local
  catch.
\<close>

theorem categoryFactory_contract:
  "categoryFactory w =
     create Category [(''name'', fake w (drawn w))] (w\<lparr>drawn := Suc (drawn w)\<rparr>) \<and>
   (categoryFactory w = (Inr r, w') \<longrightarrow>
      r = \<lparr>ident = uuid_string (uuids w (issued w)), cols = [(''name'', fake w (drawn w))]\<rparr> \<and>
      rows w' Category = rows w Category @ [r] \<and>
      journal w' = journal w @ [(Create Category [(''name'', fake w (drawn w))], True)]) \<and>
   (categoryFactory w = (Inl e, w') \<longrightarrow>
      rows w' = rows w \<and> console w' = console w \<and>
      journal w' = journal w @ [(Create Category [(''name'', fake w (drawn w))], False)])"
proof (intro conjI impI)
  show "categoryFactory w =
     create Category [(''name'', fake w (drawn w))] (w\<lparr>drawn := Suc (drawn w)\<rparr>)"
    by (rule categoryFactory_run)
next
  assume "categoryFactory w = (Inr r, w')"
  then have c: "create Category [(''name'', fake w (drawn w))] (w\<lparr>drawn := Suc (drawn w)\<rparr>) =
      (Inr r, w')"
    by (simp add: categoryFactory_run)
  show "r = \<lparr>ident = uuid_string (uuids w (issued w)), cols = [(''name'', fake w (drawn w))]\<rparr>"
    using create_Inr(2) [OF c] by simp
  show "rows w' Category = rows w Category @ [r]"
    using create_rows [OF c] by simp
  show "journal w' = journal w @ [(Create Category [(''name'', fake w (drawn w))], True)]"
    using create_journal [of Category "[(''name'', fake w (drawn w))]" "w\<lparr>drawn := Suc (drawn w)\<rparr>"]
    by (simp add: c)
next
  assume "categoryFactory w = (Inl e, w')"
  then have c: "create Category [(''name'', fake w (drawn w))] (w\<lparr>drawn := Suc (drawn w)\<rparr>) =
      (Inl e, w')"
    by (simp add: categoryFactory_run)
  show "rows w' = rows w" using create_Inl(1) [OF c] by simp
  show "console w' = console w" using create_Inl(3) [OF c] by simp
  show "journal w' = journal w @ [(Create Category [(''name'', fake w (drawn w))], False)]"
    using create_Inl(2) [OF c] by simp
qed

theorem categoryFactory_contract_witness:
  "categoryFactory world0 = (Inr lorem_row, snd (categoryFactory world0)) \<and>
   rows (snd (categoryFactory world0)) Category = [lorem_row] \<and>
   journal (snd (categoryFactory world0)) = [(Create Category lorem, True)] \<and>
   categoryFactory offline = (Inl ConnectivityFailure, snd (categoryFactory offline)) \<and>
   rows (snd (categoryFactory offline)) Category = [] \<and>
   journal (snd (categoryFactory offline)) = [(Create Category lorem, False)]"
proof -
  note t = categoryFactory_contract
    [where w = world0 and r = lorem_row and w' = "snd (categoryFactory world0)"]
  note u = categoryFactory_contract
    [where w = offline and e = ConnectivityFailure and w' = "snd (categoryFactory offline)"]
  have a: "rows (snd (categoryFactory world0)) Category = [lorem_row]"
    using mp [OF conjunct1 [OF conjunct2 [OF t]] categoryFactory_world0]
    by (simp add: world0_def)
  have b: "journal (snd (categoryFactory world0)) = [(Create Category lorem, True)]"
    using mp [OF conjunct1 [OF conjunct2 [OF t]] categoryFactory_world0]
    by (simp add: world0_def lorem_def)
  have c: "rows (snd (categoryFactory offline)) Category = []"
    using mp [OF conjunct2 [OF conjunct2 [OF u]] categoryFactory_offline]
    by (simp add: world0_def offline_def)
  have d: "journal (snd (categoryFactory offline)) = [(Create Category lorem, False)]"
    using mp [OF conjunct2 [OF conjunct2 [OF u]] categoryFactory_offline]
    by (simp add: world0_def offline_def lorem_def)
  show ?thesis
    by (intro conjI) (rule categoryFactory_world0 a b categoryFactory_offline c d)+
qed

section \<open>The factory-volume test\<close>

text \<open>
  C4. For every K, K sequential invocations of the factory that all succeed return K
  records with pairwise distinct identifiers, and these are exactly the Category records
  added to the store; they do all succeed when the store is reachable and its next K
  identifiers are fresh. The factory-volume test never fails by its assertion, and when
  it passes five records with distinct identifiers have been added.
\<close>

theorem factory_invocations:
  "(generate K 0 [] w = (Inr cs, w') \<longrightarrow>
      length cs = K \<and> distinct (map ident cs) \<and>
      rows w' Category = rows w Category @ cs) \<and>
   (fresh_ids K Category w \<longrightarrow> (\<exists>cs w'. generate K 0 [] w = (Inr cs, w'))) \<and>
   fst (test_factory w) \<noteq> Inl AssertionFailed \<and>
   (test_factory w = (Inr (), w') \<longrightarrow>
      (\<exists>cs. length cs = 5 \<and> distinct (map ident cs) \<and>
         rows w' Category = rows w Category @ cs))"
proof (intro conjI impI)
  assume "generate K 0 [] w = (Inr cs, w')"
  from generate_Inr [OF this]
  show "length cs = K" and "distinct (map ident cs)"
    and "rows w' Category = rows w Category @ cs"
    by auto
next
  assume "fresh_ids K Category w"
  then show "\<exists>cs w'. generate K 0 [] w = (Inr cs, w')"
    using generate_fresh [of K 0 w "[]"] by simp
next
  obtain res w1 where g: "generate 5 0 [] w = (res, w1)" by (cases "generate 5 0 [] w")
  show "fst (test_factory w) \<noteq> Inl AssertionFailed"
  proof (cases res)
    case (Inl e)
    with g generate_Inl [of 5 0 "[]" w e w1] show ?thesis
      by (simp add: test_factory_def numberOfCategoriesToGenerate_def bind_io_def)
  next
    case (Inr cs)
    with g generate_Inr [of 5 0 "[]" w cs w1] show ?thesis
      by (auto simp: test_factory_def numberOfCategoriesToGenerate_def bind_io_def expect_def
          return_io_def)
  qed
next
  assume t: "test_factory w = (Inr (), w')"
  obtain res w1 where g: "generate 5 0 [] w = (res, w1)" by (cases "generate 5 0 [] w")
  show "\<exists>cs. length cs = 5 \<and> distinct (map ident cs) \<and>
      rows w' Category = rows w Category @ cs"
  proof (cases res)
    case (Inl e)
    with g t show ?thesis
      by (simp add: test_factory_def numberOfCategoriesToGenerate_def bind_io_def)
  next
    case (Inr cs)
    with g have g': "generate 5 0 [] w = (Inr cs, w1)" by simp
    from generate_Inr [OF g'] have cs: "length cs = 5" "distinct (map ident cs)"
      "rows w1 Category = rows w Category @ cs"
      by auto
    with g' t have "w' = w1"
      by (simp add: test_factory_def numberOfCategoriesToGenerate_def bind_io_def expect_def
          return_io_def)
    with cs show ?thesis by blast
  qed
qed

theorem factory_invocations_witness:
  "fresh_ids 5 Category world0 \<and>
   fst (generate 5 0 [] world0) \<noteq> Inl ConstraintViolation \<and>
   length (rows (snd (generate 5 0 [] world0)) Category) = 5 \<and>
   distinct (map ident (rows (snd (generate 5 0 [] world0)) Category))"
proof -
  have fresh5: "fresh_ids 5 Category world0" by (rule fresh_ids_world0) simp
  from mp [OF conjunct1 [OF conjunct2 [OF factory_invocations [where K = 5 and w = world0]]]
      fresh5]
  obtain cs w' where g: "generate 5 0 [] world0 = (Inr cs, w')" by blast
  from mp [OF conjunct1 [OF factory_invocations [where K = 5 and w = world0]] g]
  have cs: "length cs = 5" "distinct (map ident cs)"
    "rows w' Category = rows world0 Category @ cs"
    by auto
  have r: "rows (snd (generate 5 0 [] world0)) Category = cs"
    using cs(3) g by (simp add: world0_def)
  have a: "fst (generate 5 0 [] world0) \<noteq> Inl ConstraintViolation"
    using g by simp
  have b: "length (rows (snd (generate 5 0 [] world0)) Category) = 5"
    using r cs(1) by simp
  have c: "distinct (map ident (rows (snd (generate 5 0 [] world0)) Category))"
    using r cs(2) by simp
  show ?thesis
    by (intro conjI) (rule fresh5 a b c)+
qed

section \<open>The seeder's insertions\<close>

lemma seed_round_run:
  "seed_round w =
     create User [(''name'', fake w (drawn w)), (''email'', fake w (Suc (drawn w)))]
       (w\<lparr>drawn := Suc (Suc (drawn w))\<rparr>)"
  by (simp add: seed_round_def bind_io_def fakerUser_run)

lemma seed_round_Inr:
  assumes "seed_round w = (Inr r, w')"
  shows "journal w' = journal w @
           [(Create User [(''name'', fake w (drawn w)), (''email'', fake w (Suc (drawn w)))], True)]"
    and "rows w' User = rows w User @ [r]"
    and "console w' = console w"
proof -
  let ?d = "[(''name'', fake w (drawn w)), (''email'', fake w (Suc (drawn w)))]"
  let ?w = "w\<lparr>drawn := Suc (Suc (drawn w))\<rparr>"
  from assms have c: "create User ?d ?w = (Inr r, w')" by (simp add: seed_round_run)
  show "journal w' = journal w @ [(Create User ?d, True)]"
    using create_journal [of User ?d ?w] by (simp add: c)
  show "rows w' User = rows w User @ [r]"
    using create_rows [OF c] by simp
  show "console w' = console w"
    using create_Inr(4) [OF c] by (simp add: received_def)
qed

lemma seed_round_Inl:
  assumes "seed_round w = (Inl e, w')"
  shows "journal w' = journal w @
           [(Create User [(''name'', fake w (drawn w)), (''email'', fake w (Suc (drawn w)))], False)]"
    and "rows w' = rows w"
    and "console w' = console w"
proof -
  let ?d = "[(''name'', fake w (drawn w)), (''email'', fake w (Suc (drawn w)))]"
  let ?w = "w\<lparr>drawn := Suc (Suc (drawn w))\<rparr>"
  from assms have c: "create User ?d ?w = (Inl e, w')" by (simp add: seed_round_run)
  show "journal w' = journal w @ [(Create User ?d, False)]"
    using create_Inl(2) [OF c] by simp
  show "rows w' = rows w" using create_Inl(1) [OF c] by simp
  show "console w' = console w" using create_Inl(3) [OF c] by simp
qed

lemma seed_loop_effect:
  "seed_loop i w = (res, w') \<Longrightarrow>
     \<exists>evs new. journal w' = journal w @ evs \<and> rows w' User = rows w User @ new \<and>
       console w' = console w \<and> list_all (is_insert User [''name'', ''email'']) evs \<and>
       (case res of
          Inr u \<Rightarrow> length evs = fakerRounds - i \<and> list_all snd evs \<and>
            length new = fakerRounds - i
        | Inl e \<Rightarrow> evs \<noteq> [] \<and> length evs \<le> fakerRounds - i \<and> list_all snd (butlast evs) \<and>
            \<not> snd (last evs) \<and> Suc (length new) = length evs)"
proof (induction i w arbitrary: res w' rule: seed_loop.induct)
  case (1 i w)
  show ?case
  proof (cases "i < fakerRounds")
    case False
    with "1.prems" have "res = Inr ()" "w' = w" by (simp_all add: seed_loop.simps)
    with False show ?thesis by simp
  next
    case True
    let ?d = "[(''name'', fake w (drawn w)), (''email'', fake w (Suc (drawn w)))]"
    obtain r1 w1 where sr: "seed_round w = (r1, w1)" by (cases "seed_round w")
    show ?thesis
    proof (cases r1)
      case (Inl e)
      with "1.prems" True sr have res: "res = Inl e" "w' = w1" by (simp_all add: seed_loop.simps)
      from sr Inl have f: "seed_round w = (Inl e, w1)" by simp
      let ?evs = "[(Create User ?d, False)]"
      have "journal w' = journal w @ ?evs" using seed_round_Inl(1) [OF f] res by simp
      moreover have "rows w' User = rows w User @ []" using seed_round_Inl(2) [OF f] res by simp
      moreover have "console w' = console w" using seed_round_Inl(3) [OF f] res by simp
      moreover have "list_all (is_insert User [''name'', ''email'']) ?evs"
        by (simp add: is_insert_def)
      moreover have "?evs \<noteq> [] \<and> length ?evs \<le> fakerRounds - i \<and> list_all snd (butlast ?evs) \<and>
            \<not> snd (last ?evs) \<and> Suc (length ([]::row list)) = length ?evs"
        using True by simp
      ultimately show ?thesis unfolding res by (intro exI [of _ ?evs] exI [of _ "[]"]) simp
    next
      case (Inr r)
      with "1.prems" True sr have g: "seed_loop (Suc i) w1 = (res, w')"
        by (simp add: seed_loop.simps)
      from sr Inr have s: "seed_round w = (Inr r, w1)" by simp
      from "1.IH" [OF True sr [symmetric] Inr g]
      obtain evs new where ih: "journal w' = journal w1 @ evs" "rows w' User = rows w1 User @ new"
        "console w' = console w1" "list_all (is_insert User [''name'', ''email'']) evs"
        "case res of
          Inr u \<Rightarrow> length evs = fakerRounds - Suc i \<and> list_all snd evs \<and>
            length new = fakerRounds - Suc i
        | Inl e \<Rightarrow> evs \<noteq> [] \<and> length evs \<le> fakerRounds - Suc i \<and> list_all snd (butlast evs) \<and>
            \<not> snd (last evs) \<and> Suc (length new) = length evs"
        by blast
      let ?ev = "(Create User ?d, True)"
      have j: "journal w' = journal w @ (?ev # evs)"
        using ih(1) seed_round_Inr(1) [OF s] by simp
      have rw: "rows w' User = rows w User @ (r # new)"
        using ih(2) seed_round_Inr(2) [OF s] by simp
      have co: "console w' = console w"
        using ih(3) seed_round_Inr(3) [OF s] by simp
      have ins: "list_all (is_insert User [''name'', ''email'']) (?ev # evs)"
        using ih(4) by (simp add: is_insert_def)
      have "case res of
          Inr u \<Rightarrow> length (?ev # evs) = fakerRounds - i \<and> list_all snd (?ev # evs) \<and>
            length (r # new) = fakerRounds - i
        | Inl e \<Rightarrow> (?ev # evs) \<noteq> [] \<and> length (?ev # evs) \<le> fakerRounds - i \<and>
            list_all snd (butlast (?ev # evs)) \<and>
            \<not> snd (last (?ev # evs)) \<and> Suc (length (r # new)) = length (?ev # evs)"
        using ih(5) True by (cases res) auto
      with j rw co ins show ?thesis by blast
    qed
  qed
qed

lemma seed_loop_fresh:
  "fresh_ids (fakerRounds - i) User w \<Longrightarrow> \<exists>w'. seed_loop i w = (Inr (), w')"
proof (induction i w rule: seed_loop.induct)
  case (1 i w)
  show ?case
  proof (cases "i < fakerRounds")
    case False
    then show ?thesis by (simp add: seed_loop.simps)
  next
    case True
    let ?d = "[(''name'', fake w (drawn w)), (''email'', fake w (Suc (drawn w)))]"
    from True have "fakerRounds - i = Suc (fakerRounds - Suc i)" by simp
    with "1.prems"
    have f: "fresh_ids (Suc (fakerRounds - Suc i)) User (w\<lparr>drawn := Suc (Suc (drawn w))\<rparr>)"
      by (simp add: fresh_ids_drawn)
    from create_fresh [OF f, of ?d]
    obtain r w1 where cr: "create User ?d (w\<lparr>drawn := Suc (Suc (drawn w))\<rparr>) = (Inr r, w1)"
      and f1: "fresh_ids (fakerRounds - Suc i) User w1"
      by (auto simp: property_def)
    then have sr: "seed_round w = (Inr r, w1)" by (simp add: seed_round_run)
    from "1.IH" [OF True sr [symmetric] refl f1]
    obtain w' where "seed_loop (Suc i) w1 = (Inr (), w')" by blast
    with True sr have "seed_loop i w = (Inr (), w')" by (simp add: seed_loop.simps)
    then show ?thesis by blast
  qed
qed

lemma main_run:
  "main w =
     (case seed_loop 0 w of
        (Inr u, w') \<Rightarrow> (Inr (), w')
      | (Inl e, w') \<Rightarrow> (Inr (), w'\<lparr>console := console w' @ [Stdout e]\<rparr>))"
  by (simp add: main_def catch_io_def console_log_def split: prod.splits sum.splits)

lemma failed_is_last:
  assumes "list_all snd (butlast evs)" and "N \<le> length evs" and "0 < N"
    and "\<not> snd (evs ! (N - 1))"
  shows "N = length evs"
proof (rule ccontr)
  assume "N \<noteq> length evs"
  with assms(2,3) have "N - 1 < length (butlast evs)" by simp
  then have "snd (butlast evs ! (N - 1))"
    using assms(1) by (simp add: list_all_length)
  moreover have "butlast evs ! (N - 1) = evs ! (N - 1)"
    using \<open>N - 1 < length (butlast evs)\<close> by (simp add: nth_butlast)
  ultimately show False using assms(4) by simp
qed

lemma seeder_effect:
  "\<exists>evs new.
     fst (main w) = Inr () \<and>
     journal (snd (main w)) = journal w @ evs \<and>
     list_all (is_insert User [''name'', ''email'']) evs \<and>
     rows (snd (main w)) User = rows w User @ new \<and>
     (list_all snd evs \<longrightarrow>
        length evs = 10 \<and> length new = 10 \<and> console (snd (main w)) = console w) \<and>
     (\<forall>N. 0 < N \<and> N \<le> length evs \<and> \<not> snd (evs ! (N - 1)) \<longrightarrow>
        length evs = N \<and> length new = N - 1 \<and>
        (\<exists>e. console (snd (main w)) = console w @ [Stdout e])) \<and>
     (fresh_ids 10 User w \<longrightarrow> list_all snd evs)"
proof -
  obtain res w1 where l: "seed_loop 0 w = (res, w1)" by (cases "seed_loop 0 w")
  from seed_loop_effect [OF l]
  obtain evs new where eff: "journal w1 = journal w @ evs" "rows w1 User = rows w User @ new"
    "console w1 = console w" "list_all (is_insert User [''name'', ''email'']) evs"
    "case res of
       Inr u \<Rightarrow> length evs = fakerRounds - 0 \<and> list_all snd evs \<and>
         length new = fakerRounds - 0
     | Inl e \<Rightarrow> evs \<noteq> [] \<and> length evs \<le> fakerRounds - 0 \<and> list_all snd (butlast evs) \<and>
         \<not> snd (last evs) \<and> Suc (length new) = length evs"
    by blast
  show ?thesis
  proof (cases res)
    case (Inr u)
    with l have m: "main w = (Inr (), w1)" by (simp add: main_run)
    from Inr eff(5) have ok: "length evs = 10" "list_all snd evs" "length new = 10"
      by (simp_all add: fakerRounds_def)
    have none: "\<forall>N. 0 < N \<and> N \<le> length evs \<and> \<not> snd (evs ! (N - 1)) \<longrightarrow>
        length evs = N \<and> length new = N - 1 \<and>
        (\<exists>e. console (snd (main w)) = console w @ [Stdout e])"
      using ok(2) by (auto simp: list_all_length)
    show ?thesis
      using m eff(1-4) ok none by (intro exI [of _ evs] exI [of _ new]) simp
  next
    case (Inl e)
    with l have m: "main w = (Inr (), w1\<lparr>console := console w1 @ [Stdout e]\<rparr>)"
      by (simp add: main_run)
    from Inl eff(5) have bad: "evs \<noteq> []" "list_all snd (butlast evs)" "\<not> snd (last evs)"
      "Suc (length new) = length evs"
      by simp_all
    have notall: "\<not> list_all snd evs"
      using bad(1,3) by (auto simp: list_all_iff)
    have nofresh: "\<not> fresh_ids 10 User w"
    proof
      assume "fresh_ids 10 User w"
      then obtain w' where "seed_loop 0 w = (Inr (), w')"
        using seed_loop_fresh [of 0 w] by (auto simp: fakerRounds_def)
      with l Inl show False by simp
    qed
    have nth: "\<forall>N. 0 < N \<and> N \<le> length evs \<and> \<not> snd (evs ! (N - 1)) \<longrightarrow>
        length evs = N \<and> length new = N - 1 \<and>
        (\<exists>e. console (snd (main w)) = console w @ [Stdout e])"
    proof (intro allI impI)
      fix N assume N: "0 < N \<and> N \<le> length evs \<and> \<not> snd (evs ! (N - 1))"
      then have "N = length evs" using failed_is_last [OF bad(2), of N] by simp
      then show "length evs = N \<and> length new = N - 1 \<and>
        (\<exists>e. console (snd (main w)) = console w @ [Stdout e])"
        using bad(4) m eff(3) by simp
    qed
    show ?thesis
      using m eff(1-4) notall nofresh nth by (intro exI [of _ evs] exI [of _ new]) simp
  qed
qed

text \<open>
  C1. For every run of the seeder's main: it resolves; the requests it sends are
  insertions of User payloads with name and email; the records of earlier runs stay and
  the new ones follow them. If none of the insertions fails, exactly ten requests were
  sent, exactly ten User records were added and nothing was logged. If the Nth
  insertion fails, it is the last request sent (no insertion after it is attempted),
  exactly N - 1 records were added, and the error was caught and logged on standard
  output. On a reachable store whose next ten identifiers are fresh, no insertion
  fails.
\<close>

theorem seeder_insertions:
  "fst (main w) = Inr () \<and>
   journal (snd (main w)) = journal w @ sent w (snd (main w)) \<and>
   list_all (is_insert User [''name'', ''email'']) (sent w (snd (main w))) \<and>
   rows (snd (main w)) User = rows w User @ added User w (snd (main w)) \<and>
   (list_all snd (sent w (snd (main w))) \<longrightarrow>
      length (sent w (snd (main w))) = 10 \<and> length (added User w (snd (main w))) = 10 \<and>
      console (snd (main w)) = console w) \<and>
   (\<forall>N. 0 < N \<and> N \<le> length (sent w (snd (main w))) \<and>
        \<not> snd (sent w (snd (main w)) ! (N - 1)) \<longrightarrow>
      length (sent w (snd (main w))) = N \<and> length (added User w (snd (main w))) = N - 1 \<and>
      (\<exists>e. console (snd (main w)) = console w @ [Stdout e])) \<and>
   (fresh_ids 10 User w \<longrightarrow> list_all snd (sent w (snd (main w))))"
proof -
  from seeder_effect [of w] obtain evs new where
    e: "fst (main w) = Inr () \<and>
     journal (snd (main w)) = journal w @ evs \<and>
     list_all (is_insert User [''name'', ''email'']) evs \<and>
     rows (snd (main w)) User = rows w User @ new \<and>
     (list_all snd evs \<longrightarrow>
        length evs = 10 \<and> length new = 10 \<and> console (snd (main w)) = console w) \<and>
     (\<forall>N. 0 < N \<and> N \<le> length evs \<and> \<not> snd (evs ! (N - 1)) \<longrightarrow>
        length evs = N \<and> length new = N - 1 \<and>
        (\<exists>e. console (snd (main w)) = console w @ [Stdout e])) \<and>
     (fresh_ids 10 User w \<longrightarrow> list_all snd evs)"
    by (elim exE)
  have s1: "sent w (snd (main w)) = evs"
    using conjunct1 [OF conjunct2 [OF e]] by (simp add: sent_def)
  have s2: "added User w (snd (main w)) = new"
    using conjunct1 [OF conjunct2 [OF conjunct2 [OF conjunct2 [OF e]]]] by (simp add: added_def)
  show ?thesis unfolding s1 s2 by (rule e)
qed

lemma main_clash: "map snd (journal (snd (main clash))) = [True, False]"
  by (simp add: main_run seed_loop.simps seed_round_run create_def clash_def world0_def
      received_def fakerRounds_def has_id_def property_def Let_def)

lemma sent_clash: "map snd (sent clash (snd (main clash))) = [True, False]"
  using main_clash by (simp add: sent_def clash_def world0_def)

theorem seeder_insertions_witness:
  "fresh_ids 10 User world0 \<and>
   length (added User world0 (snd (main world0))) = 10 \<and>
   console (snd (main world0)) = [] \<and>
   map snd (sent clash (snd (main clash))) = [True, False] \<and>
   length (added User clash (snd (main clash))) = 1 \<and>
   length (console (snd (main clash))) = 1"
proof -
  have fresh: "fresh_ids 10 User world0" by (rule fresh_ids_world0) simp
  note t = seeder_insertions [of world0]
  have all: "list_all snd (sent world0 (snd (main world0)))"
    by (rule mp [OF conjunct2 [OF conjunct2 [OF conjunct2 [OF conjunct2 [OF conjunct2
      [OF conjunct2 [OF t]]]]]] fresh])
  note ten = mp [OF conjunct1 [OF conjunct2 [OF conjunct2 [OF conjunct2 [OF conjunct2 [OF t]]]]] all]
  have a: "length (added User world0 (snd (main world0))) = 10"
    by (rule conjunct1 [OF conjunct2 [OF ten]])
  have b: "console (snd (main world0)) = []"
    using conjunct2 [OF conjunct2 [OF ten]] by (simp add: world0_def)
  note u = seeder_insertions [of clash]
  have len: "length (sent clash (snd (main clash))) = 2"
    using arg_cong [OF sent_clash, of length] by simp
  have bad: "\<not> snd (sent clash (snd (main clash)) ! (2 - 1))"
    using arg_cong [OF sent_clash, of "\<lambda>xs. xs ! 1"] len by simp
  have "0 < (2::nat) \<and> 2 \<le> length (sent clash (snd (main clash))) \<and>
      \<not> snd (sent clash (snd (main clash)) ! (2 - 1))"
    using len bad by simp
  note two = mp [OF spec [OF conjunct1 [OF conjunct2 [OF conjunct2 [OF conjunct2 [OF conjunct2
      [OF conjunct2 [OF u]]]]]], of 2] this]
  have c: "length (added User clash (snd (main clash))) = 1"
    using conjunct1 [OF conjunct2 [OF two]] by simp
  have d: "length (console (snd (main clash))) = 1"
    using conjunct2 [OF conjunct2 [OF two]] by (auto simp: clash_def world0_def)
  show ?thesis
    by (intro conjI) (rule fresh a b sent_clash c d)+
qed

section \<open>The seeder's exit\<close>

lemma settle_Inr:
  assumes "p w = (Inr (), w1)"
  shows "settle p w = (0, w1\<lparr>connected := False, journal := journal w1 @ [(Disconnect, True)]\<rparr>)"
  using assms by (simp add: settle_def bind_io_def on_fulfilled_def disconnect_def)

lemma settle_Inl:
  assumes "p w = (Inl e, w1)"
  shows "settle p w =
    (1, w1\<lparr>console := console w1 @ [Stderr e], connected := False,
          journal := journal w1 @ [(Disconnect, True)]\<rparr>)"
  using assms
  by (simp add: settle_def bind_io_def on_rejected_def console_error_def disconnect_def)

lemma main_resolves: "\<exists>w1. main w = (Inr (), w1)"
  by (simp add: main_run split: prod.splits sum.splits)

text \<open>
  C6. The promise chain at the end of the seed script, on any promise: when the promise
  resolves, the connection is released and the exit status is 0; when it rejects, the
  error is logged on standard error, the connection is released and the exit status is
  1. The seed script itself always ends with status 0, without a connection, its last
  request being the release of the connection.
\<close>

theorem seed_exit:
  "(p w = (Inr (), w1) \<longrightarrow>
      settle p w = (0, w1\<lparr>connected := False, journal := journal w1 @ [(Disconnect, True)]\<rparr>)) \<and>
   (p w = (Inl e, w1) \<longrightarrow>
      settle p w =
        (1, w1\<lparr>console := console w1 @ [Stderr e], connected := False,
              journal := journal w1 @ [(Disconnect, True)]\<rparr>)) \<and>
   fst (seed w) = 0 \<and> \<not> connected (snd (seed w)) \<and>
   last (journal (snd (seed w))) = (Disconnect, True)"
proof -
  obtain w2 where m: "main w = (Inr (), w2)" using main_resolves by blast
  have s: "seed w = (0, w2\<lparr>connected := False, journal := journal w2 @ [(Disconnect, True)]\<rparr>)"
    unfolding seed_def by (rule settle_Inr [of main w, OF m])
  have 1: "p w = (Inr (), w1) \<longrightarrow>
      settle p w = (0, w1\<lparr>connected := False, journal := journal w1 @ [(Disconnect, True)]\<rparr>)"
    by (rule impI) (rule settle_Inr)
  have 2: "p w = (Inl e, w1) \<longrightarrow>
      settle p w =
        (1, w1\<lparr>console := console w1 @ [Stderr e], connected := False,
              journal := journal w1 @ [(Disconnect, True)]\<rparr>)"
    by (rule impI) (rule settle_Inl)
  have 3: "fst (seed w) = 0" "\<not> connected (snd (seed w))"
    "last (journal (snd (seed w))) = (Disconnect, True)"
    by (simp_all add: s)
  from 1 2 3 show ?thesis by (intro conjI)
qed

theorem seed_exit_witness:
  "fst (settle (return_io ()) world0) = 0 \<and>
   \<not> connected (snd (settle (return_io ()) world0)) \<and>
   fst (settle (throw_io ConnectivityFailure) world0) = 1 \<and>
   console (snd (settle (throw_io ConnectivityFailure) world0)) = [Stderr ConnectivityFailure] \<and>
   \<not> connected (snd (settle (throw_io ConnectivityFailure) world0)) \<and>
   fst (seed world0) = 0"
proof -
  have r: "return_io () world0 = (Inr (), world0)" by (simp add: return_io_def)
  have t: "throw_io ConnectivityFailure world0 = (Inl ConnectivityFailure, world0)"
    by (simp add: throw_io_def)
  note a = mp [OF conjunct1 [OF seed_exit [where p = "return_io ()" and w = world0 and ?w1.0 = world0]] r]
  note b = mp [OF conjunct1 [OF conjunct2 [OF seed_exit
    [where p = "throw_io ConnectivityFailure" and w = world0 and ?w1.0 = world0
      and e = ConnectivityFailure]]] t]
  note c = conjunct1 [OF conjunct2 [OF conjunct2 [OF seed_exit [where w = world0]]]]
  show ?thesis
    using a b c by (simp add: world0_def)
qed

section \<open>Insertion failures and the exit status\<close>

text \<open>
  C9. If the loop of insertions is left by a failed insertion, the seed script still
  exits with status 0: the error is logged on standard output by the handler inside
  main, the connection is released, and nothing else is printed. The same holds whenever
  one of the insertion requests of the run has failed. In every run the exit status is
  0 and the console gains at most one line, on standard output, so the top-level
  rejection handler (which prints on standard error) is never reached.
\<close>

theorem insertion_failure_exits_zero:
  "(seed_loop 0 w = (Inl e, w1) \<longrightarrow>
      seed w =
        (0, w1\<lparr>console := console w1 @ [Stdout e], connected := False,
              journal := journal w1 @ [(Disconnect, True)]\<rparr>) \<and>
      console (snd (seed w)) = console w @ [Stdout e]) \<and>
   (\<not> list_all snd (sent w (snd (main w))) \<longrightarrow>
      (\<exists>e. console (snd (seed w)) = console w @ [Stdout e])) \<and>
   fst (seed w) = 0 \<and>
   (console (snd (seed w)) = console w \<or> (\<exists>e. console (snd (seed w)) = console w @ [Stdout e]))"
proof -
  obtain res w2 where l: "seed_loop 0 w = (res, w2)" by (cases "seed_loop 0 w")
  from seed_loop_effect [OF l] obtain evs where
    jo: "journal w2 = journal w @ evs" and co: "console w2 = console w"
    and su: "case res of Inr u \<Rightarrow> list_all snd evs | Inl e \<Rightarrow> True"
    by (cases res) auto
  have 1: "seed_loop 0 w = (Inl e, w1) \<longrightarrow>
      seed w =
        (0, w1\<lparr>console := console w1 @ [Stdout e], connected := False,
              journal := journal w1 @ [(Disconnect, True)]\<rparr>) \<and>
      console (snd (seed w)) = console w @ [Stdout e]"
  proof
    assume f: "seed_loop 0 w = (Inl e, w1)"
    then have m: "main w = (Inr (), w1\<lparr>console := console w1 @ [Stdout e]\<rparr>)"
      by (simp add: main_run)
    from f l co have "console w1 = console w" by simp
    then show "seed w =
        (0, w1\<lparr>console := console w1 @ [Stdout e], connected := False,
              journal := journal w1 @ [(Disconnect, True)]\<rparr>) \<and>
      console (snd (seed w)) = console w @ [Stdout e]"
      unfolding seed_def by (simp add: settle_Inr [of main w, OF m])
  qed
  obtain w3 where m: "main w = (Inr (), w3)" using main_resolves by blast
  have 2: "fst (seed w) = 0"
    unfolding seed_def by (simp add: settle_Inr [of main w, OF m])
  have 3: "console (snd (seed w)) = console w \<or>
      (\<exists>e. console (snd (seed w)) = console w @ [Stdout e])"
  proof (cases res)
    case (Inr u)
    with l have m2: "main w = (Inr (), w2)" by (simp add: main_run)
    have "console (snd (seed w)) = console w"
      unfolding seed_def by (simp add: settle_Inr [of main w, OF m2] co)
    then show ?thesis by (rule disjI1)
  next
    case (Inl e')
    with l have m2: "main w = (Inr (), w2\<lparr>console := console w2 @ [Stdout e']\<rparr>)"
      by (simp add: main_run)
    have "console (snd (seed w)) = console w @ [Stdout e']"
      unfolding seed_def by (simp add: settle_Inr [of main w, OF m2] co)
    then show ?thesis by blast
  qed
  have 4: "\<not> list_all snd (sent w (snd (main w))) \<longrightarrow>
      (\<exists>e. console (snd (seed w)) = console w @ [Stdout e])"
  proof
    assume n: "\<not> list_all snd (sent w (snd (main w)))"
    have "journal (snd (main w)) = journal w2"
      using l by (simp add: main_run split: sum.splits)
    with jo have "sent w (snd (main w)) = evs" by (simp add: sent_def)
    with n su obtain e' where "res = Inl e'" by (cases res) auto
    with l have m2: "main w = (Inr (), w2\<lparr>console := console w2 @ [Stdout e']\<rparr>)"
      by (simp add: main_run)
    have "console (snd (seed w)) = console w @ [Stdout e']"
      unfolding seed_def by (simp add: settle_Inr [of main w, OF m2] co)
    then show "\<exists>e. console (snd (seed w)) = console w @ [Stdout e]" by blast
  qed
  from 1 4 2 3 show ?thesis by (intro conjI)
qed

lemma seed_loop_offline:
  "seed_loop 0 offline = (Inl ConnectivityFailure, snd (seed_loop 0 offline))"
  by (simp add: seed_loop.simps seed_round_run create_def offline_def world0_def fakerRounds_def)

theorem insertion_failure_exits_zero_witness:
  "seed_loop 0 offline = (Inl ConnectivityFailure, snd (seed_loop 0 offline)) \<and>
   fst (seed offline) = 0 \<and>
   console (snd (seed offline)) = [Stdout ConnectivityFailure]"
proof -
  note t = insertion_failure_exits_zero
    [where w = offline and e = ConnectivityFailure and ?w1.0 = "snd (seed_loop 0 offline)"]
  have a: "console (snd (seed offline)) = console offline @ [Stdout ConnectivityFailure]"
    by (rule conjunct2 [OF mp [OF conjunct1 [OF t] seed_loop_offline]])
  have b: "console (snd (seed offline)) = [Stdout ConnectivityFailure]"
    using a by (simp add: offline_def world0_def)
  show ?thesis
    by (intro conjI) (rule seed_loop_offline conjunct1 [OF conjunct2 [OF conjunct2 [OF t]]] b)+
qed

section \<open>Where identifiers come from\<close>

lemma quiet_iff:
  "quiet w w' \<longleftrightarrow> (\<exists>evs. journal w' = journal w @ evs \<and> (\<forall>ev \<in> set evs. \<not> supplies_id ev))"
proof
  assume q: "quiet w w'"
  then have "journal w' = journal w @ sent w w'"
    unfolding quiet_def sent_def by (metis append_take_drop_id)
  with q show "\<exists>evs. journal w' = journal w @ evs \<and> (\<forall>ev \<in> set evs. \<not> supplies_id ev)"
    by (auto simp: quiet_def list_ex_iff)
next
  assume "\<exists>evs. journal w' = journal w @ evs \<and> (\<forall>ev \<in> set evs. \<not> supplies_id ev)"
  then show "quiet w w'"
    by (auto simp: quiet_def sent_def list_ex_iff)
qed

lemma quiet_same: "journal w' = journal w \<Longrightarrow> quiet w w'"
  by (simp add: quiet_iff)

lemma quiet_one: "journal w' = journal w @ [ev] \<Longrightarrow> \<not> supplies_id ev \<Longrightarrow> quiet w w'"
  by (simp add: quiet_iff)

lemma quiet_trans: "quiet w w1 \<Longrightarrow> quiet w1 w2 \<Longrightarrow> quiet w w2"
  by (fastforce simp: quiet_iff)

lemma quiet_bind:
  assumes "quiet w (snd (m w))"
    and "\<And>x w1. m w = (Inr x, w1) \<Longrightarrow> quiet w1 (snd (f x w1))"
  shows "quiet w (snd (bind_io m f w))"
proof (cases "m w")
  case (Pair res w1)
  show ?thesis
  proof (cases res)
    case (Inl e)
    with Pair assms(1) show ?thesis by (simp add: bind_io_def)
  next
    case (Inr x)
    with Pair have "m w = (Inr x, w1)" by simp
    from assms(2) [OF this] assms(1) Pair Inr show ?thesis
      by (auto simp: bind_io_def intro: quiet_trans)
  qed
qed

lemma quiet_create: "property d ''id'' = None \<Longrightarrow> quiet w (snd (create k d w))"
  by (rule quiet_one [OF create_journal]) (simp add: supplies_id_def)

lemma quiet_findUnique: "quiet w (snd (findUnique k i w))"
  by (rule quiet_one [of _ _ "(FindUnique k i, reachable w)"])
    (simp_all add: findUnique_def received_def supplies_id_def)

lemma quiet_findMany: "quiet w (snd (findMany k w))"
  by (rule quiet_one [of _ _ "(FindMany k, reachable w)"])
    (simp_all add: findMany_def received_def supplies_id_def)

lemma quiet_delete: "quiet w (snd (delete k i w))"
  by (rule quiet_one [of _ _ "(Delete k i, fst (delete k i w) \<noteq> Inl ConnectivityFailure \<and>
      fst (delete k i w) \<noteq> Inl RecordNotFound)"])
    (simp_all add: delete_def received_def supplies_id_def split: option.splits)

lemma quiet_expect: "quiet w (snd (expect b w))"
  by (rule quiet_same) (simp add: expect_def return_io_def throw_io_def)

lemma quiet_fakerUser_test: "quiet w (snd (fakerUser_test w))"
  by (rule quiet_same) (simp add: fakerUser_test_run)

lemma quiet_userData: "quiet w (snd (userData w))"
  by (rule quiet_same) (simp add: userData_run)

lemma quiet_test_create: "quiet w (snd (test_create w))"
  unfolding test_create_def
  by (intro quiet_bind quiet_fakerUser_test quiet_create quiet_findUnique quiet_expect)
    (simp add: fakerUser_test_run property_def)

lemma quiet_test_update: "quiet w (snd (test_update w))"
  unfolding test_update_def
  by (intro quiet_bind quiet_userData quiet_create quiet_expect)
    (auto simp: userData_run property_def)

lemma quiet_test_delete: "quiet w (snd (test_delete w))"
  unfolding test_delete_def
  by (intro quiet_bind quiet_userData quiet_create quiet_findUnique quiet_delete quiet_expect)
    (auto simp: userData_run property_def)

lemma quiet_test_get_all: "quiet w (snd (test_get_all w))"
  unfolding test_get_all_def
  by (intro quiet_bind quiet_findMany quiet_expect)

lemma quiet_categoryFactory: "quiet w (snd (categoryFactory w))"
proof -
  have "quiet (w\<lparr>drawn := Suc (drawn w)\<rparr>)
      (snd (create Category [(''name'', fake w (drawn w))] (w\<lparr>drawn := Suc (drawn w)\<rparr>)))"
    by (rule quiet_create) (simp add: property_def)
  then show ?thesis
    by (simp add: categoryFactory_run quiet_iff)
qed

lemma quiet_generate: "quiet w (snd (generate n i acc w))"
proof (induction n i acc w rule: generate.induct)
  case (1 n i acc w)
  show ?case
  proof (cases "i < n")
    case False
    then show ?thesis by (simp add: generate.simps quiet_same)
  next
    case True
    obtain res w1 where cf: "categoryFactory w = (res, w1)" by (cases "categoryFactory w")
    from quiet_categoryFactory [of w] cf have q: "quiet w w1" by simp
    show ?thesis
    proof (cases res)
      case (Inl e)
      with True cf q show ?thesis by (simp add: generate.simps)
    next
      case (Inr c)
      from "1.IH" [OF True cf [symmetric] Inr]
      have "quiet w1 (snd (generate n (Suc i) (acc @ [c]) w1))" .
      with q have "quiet w (snd (generate n (Suc i) (acc @ [c]) w1))" by (rule quiet_trans)
      with True cf Inr show ?thesis by (simp add: generate.simps)
    qed
  qed
qed

lemma quiet_test_factory: "quiet w (snd (test_factory w))"
  unfolding test_factory_def
  by (intro quiet_bind quiet_generate quiet_expect)

lemma is_insert_no_id:
  assumes "is_insert k ks ev" and "''id'' \<notin> set ks"
  shows "\<not> supplies_id ev"
proof (cases "fst ev")
  case (Create k' d)
  with assms(1) have "map fst d = ks" by (simp add: is_insert_def)
  then have "set ks = fst ` set d" by (metis set_map)
  with assms(2) have "''id'' \<notin> fst ` set d" by simp
  then have "map_of d ''id'' = None" by (simp add: map_of_eq_None_iff)
  with Create show ?thesis by (simp add: supplies_id_def property_def)
qed (simp_all add: supplies_id_def)

lemma quiet_seed: "quiet w (snd (seed w))"
proof -
  obtain w1 where m: "main w = (Inr (), w1)" using main_resolves by blast
  have "journal w1 = journal w @ sent w w1"
    and "list_all (is_insert User [''name'', ''email'']) (sent w w1)"
    using seeder_effect [of w] m by (auto simp: sent_def)
  then have q: "quiet w w1"
    by (auto simp: quiet_iff list_all_iff dest!: is_insert_no_id intro!: exI [of _ "sent w w1"])
  have "quiet w1 (snd (seed w))"
    unfolding seed_def
    by (rule quiet_one [of _ _ "(Disconnect, True)"])
      (simp_all add: settle_Inr [of main w, OF m] supplies_id_def)
  with q show ?thesis by (rule quiet_trans)
qed

text \<open>
  C10. No component supplies an identifier in an insert call. The seeder's fakerUser
  builds exactly name and email, the payloads of the tests exactly name and email (or
  email and name), and the factory sends exactly name. In every run of the seed script,
  of each test and of the factory, no request in the journal is an insertion whose
  payload has an id property. The identifier of every record an insertion returns is
  the text of the value the store's generator produced at that moment, whatever the
  payload.
\<close>

theorem no_identifier_supplied:
  "fst (fakerUser w) = Inr [(''name'', fake w (drawn w)), (''email'', fake w (Suc (drawn w)))] \<and>
   fst (fakerUser_test w) =
     Inr [(''name'', fake w (drawn w)), (''email'', fake w (Suc (drawn w)))] \<and>
   fst (userData w) = Inr [(''email'', fake w (drawn w)), (''name'', fake w (Suc (drawn w)))] \<and>
   (\<exists>ok. sent w (snd (categoryFactory w)) =
      [(Create Category [(''name'', fake w (drawn w))], ok)]) \<and>
   quiet w (snd (seed w)) \<and>
   quiet w (snd (test_create w)) \<and>
   quiet w (snd (test_get_all w)) \<and>
   quiet w (snd (test_update w)) \<and>
   quiet w (snd (test_delete w)) \<and>
   quiet w (snd (categoryFactory w)) \<and>
   quiet w (snd (test_factory w)) \<and>
   (create k d w = (Inr r, w') \<longrightarrow> ident r = uuid_string (uuids w (issued w)))"
proof -
  have 1: "\<exists>ok. sent w (snd (categoryFactory w)) =
      [(Create Category [(''name'', fake w (drawn w))], ok)]"
    using create_journal [of Category "[(''name'', fake w (drawn w))]" "w\<lparr>drawn := Suc (drawn w)\<rparr>"]
    by (simp add: categoryFactory_run sent_def)
  have 2: "create k d w = (Inr r, w') \<longrightarrow> ident r = uuid_string (uuids w (issued w))"
  proof
    assume c: "create k d w = (Inr r, w')"
    show "ident r = uuid_string (uuids w (issued w))"
      using create_Inr(2) [OF c] by simp
  qed
  show ?thesis
    by (intro conjI 1 2 quiet_seed quiet_test_create quiet_test_get_all quiet_test_update
        quiet_test_delete quiet_categoryFactory quiet_test_factory)
      (simp_all add: fakerUser_run fakerUser_test_run userData_run)
qed

theorem no_identifier_supplied_witness:
  "create User ada world0 = (Inr ada_row, snd (create User ada world0)) \<and>
   ident ada_row = uuid_string (uuids world0 (issued world0)) \<and>
   fst (fakerUser world0) = Inr [(''name'', ''Ada''), (''email'', ''Ada'')] \<and>
   quiet world0 (snd (seed world0)) \<and>
   quiet world0 (snd (test_factory world0))"
proof -
  note t = no_identifier_supplied
    [where w = world0 and k = User and d = ada and r = ada_row
      and w' = "snd (create User ada world0)"]
  have a: "ident ada_row = uuid_string (uuids world0 (issued world0))"
    by (rule mp [OF conjunct2 [OF conjunct2 [OF conjunct2 [OF conjunct2 [OF conjunct2
      [OF conjunct2 [OF conjunct2 [OF conjunct2 [OF conjunct2 [OF conjunct2 [OF conjunct2
      [OF t]]]]]]]]]]] create_ada])
  have b: "fst (fakerUser world0) = Inr [(''name'', ''Ada''), (''email'', ''Ada'')]"
    using conjunct1 [OF t] by (simp add: world0_def)
  have c: "quiet world0 (snd (seed world0))"
    by (rule conjunct1 [OF conjunct2 [OF conjunct2 [OF conjunct2 [OF conjunct2 [OF t]]]]])
  have d: "quiet world0 (snd (test_factory world0))"
    by (rule conjunct1 [OF conjunct2 [OF conjunct2 [OF conjunct2 [OF conjunct2 [OF conjunct2
      [OF conjunct2 [OF conjunct2 [OF conjunct2 [OF conjunct2 [OF conjunct2 [OF t]]]]]]]]]]])
  show ?thesis
    by (intro conjI) (rule create_ada a b c d)+
qed

end
